theory Spec2Isabelle
  imports Main
begin

section \<open>Values and exceptions\<close>

text \<open>
  The program (\<^verbatim>\<open>src/habits_tracker/cli.py\<close>) keeps habits in an SQLite file and reads
  them back through a pydantic model. Values that travel between the two are Python
  objects; the ones that occur here are \<^verbatim>\<open>None\<close>, \<^verbatim>\<open>bool\<close>, \<^verbatim>\<open>int\<close> and \<^verbatim>\<open>str\<close>
  (floats and bytes are left out of the model). SQLite itself stores a value in one of
  the storage classes NULL, INTEGER and TEXT (REAL and BLOB are left out likewise).
\<close>

datatype pyval = PyNone | PyBool bool | PyInt int | PyStr string

datatype sqlval = Null | Integer int | Text string

type_synonym row = "sqlval list"

text \<open>What \<^verbatim>\<open>fetchall()\<close> hands to Python for a stored value.\<close>

fun py_of_sql :: "sqlval \<Rightarrow> pyval" where
  "py_of_sql Null = PyNone"
| "py_of_sql (Integer i) = PyInt i"
| "py_of_sql (Text s) = PyStr s"

text \<open>
  The exceptions that can leave the program's functions: the two \<^verbatim>\<open>sqlite3\<close> errors that
  the model itself raises, with their message, Python's \<^verbatim>\<open>ValueError\<close>, pydantic's
  \<^verbatim>\<open>ValidationError\<close> with its list of (field, error type) pairs, and any other
  exception, with the name of its class and its message. Nothing in the source catches
  any of them.
\<close>

datatype py_exception =
    OperationalError string
  | IntegrityError string
  | ValueError string
  | ValidationError "(string \<times> string) list"
  | Other_exception string string

section \<open>Python's \<^verbatim>\<open>str()\<close> and \<^verbatim>\<open>str.lower()\<close>\<close>

definition str_bool :: "bool \<Rightarrow> string" where
  "str_bool b = (if b then ''True'' else ''False'')"

definition digit :: "nat \<Rightarrow> char" where
  "digit n = ''0123456789'' ! (n mod 10)"

function str_nat :: "nat \<Rightarrow> string" where
  "str_nat n = (if n < 10 then [digit n] else str_nat (n div 10) @ [digit n])"
  by pat_completeness auto
termination
  by (relation "measure (\<lambda>n. n)") auto

definition str_int :: "int \<Rightarrow> string" where
  "str_int i = (if i < 0 then CHR ''-'' # str_nat (nat (- i)) else str_nat (nat i))"

definition lower_char :: "char \<Rightarrow> char" where
  "lower_char c =
     (case map_of (zip ''ABCDEFGHIJKLMNOPQRSTUVWXYZ'' ''abcdefghijklmnopqrstuvwxyz'') c of
        Some l \<Rightarrow> l
      | None \<Rightarrow> c)"

definition lower :: "string \<Rightarrow> string" where
  "lower s = map lower_char s"

section \<open>Entity model: \<^verbatim>\<open>Model.from_values\<close> and \<^verbatim>\<open>Habit\<close>\<close>

text \<open>
  \<^verbatim>\<open>
  class Habit(Model, BaseModel):
      _table = "habits"
      title: str
      description: str
      required: bool
      negative: bool
  \<close>
\<close>

record Habit =
  title :: string
  description :: string
  required :: bool
  negative :: bool

definition Habit_fields :: "string list" where
  "Habit_fields = [''title'', ''description'', ''required'', ''negative'']"

text \<open>
  pydantic (version 1, whose \<^verbatim>\<open>__fields__\<close> the source reads) validates a \<^verbatim>\<open>str\<close> field
  by keeping a string and applying \<^verbatim>\<open>str()\<close> to a number (a \<^verbatim>\<open>bool\<close> is an \<^verbatim>\<open>int\<close>
  in Python); a \<^verbatim>\<open>bool\<close> field by keeping a boolean and accepting the integers 0 and 1
  and the lower-cased strings of its two tables. \<^verbatim>\<open>None\<close> is refused for both, since
  neither field is optional. \<open>Inl\<close> carries pydantic's error type.
\<close>

definition str_validator :: "pyval \<Rightarrow> string + string" where
  "str_validator v =
     (case v of
        PyNone \<Rightarrow> Inl ''type_error.none.not_allowed''
      | PyStr s \<Rightarrow> Inr s
      | PyBool b \<Rightarrow> Inr (str_bool b)
      | PyInt i \<Rightarrow> Inr (str_int i))"

definition BOOL_TRUE :: "string list" where
  "BOOL_TRUE = [''1'', ''on'', ''t'', ''true'', ''y'', ''yes'']"

definition BOOL_FALSE :: "string list" where
  "BOOL_FALSE = [''0'', ''off'', ''f'', ''false'', ''n'', ''no'']"

definition bool_validator :: "pyval \<Rightarrow> string + bool" where
  "bool_validator v =
     (case v of
        PyNone \<Rightarrow> Inl ''type_error.none.not_allowed''
      | PyBool b \<Rightarrow> Inr b
      | PyInt i \<Rightarrow>
          (if i = 1 then Inr True else if i = 0 then Inr False else Inl ''type_error.bool'')
      | PyStr s \<Rightarrow>
          (if lower s \<in> set BOOL_TRUE then Inr True
           else if lower s \<in> set BOOL_FALSE then Inr False
           else Inl ''type_error.bool''))"

text \<open>
  Validation of one keyword argument: a field that is absent from the data is an error
  of its own (every field of \<^verbatim>\<open>Habit\<close> is required).
\<close>

definition validate_field ::
  "(string \<rightharpoonup> pyval) \<Rightarrow> string \<Rightarrow> (pyval \<Rightarrow> string + 'a) \<Rightarrow> (string \<times> string) + 'a" where
  "validate_field data name validator =
     (case data name of
        None \<Rightarrow> Inl (name, ''value_error.missing'')
      | Some v \<Rightarrow> (case validator v of Inl e \<Rightarrow> Inl (name, e) | Inr x \<Rightarrow> Inr x))"

definition errors_of :: "'e + 'a \<Rightarrow> 'e list" where
  "errors_of r = (case r of Inl e \<Rightarrow> [e] | Inr _ \<Rightarrow> [])"

text \<open>
  \<^verbatim>\<open>Habit(**data)\<close>: every field is validated, the errors of all fields are collected,
  and the model is built only when there is none.
\<close>

definition Habit_init :: "(string \<rightharpoonup> pyval) \<Rightarrow> py_exception + Habit" where
  "Habit_init data =
     (let t = validate_field data ''title'' str_validator;
          d = validate_field data ''description'' str_validator;
          r = validate_field data ''required'' bool_validator;
          n = validate_field data ''negative'' bool_validator
      in case (t, d, r, n) of
           (Inr t', Inr d', Inr r', Inr n') \<Rightarrow>
             Inr \<lparr>title = t', description = d', required = r', negative = n'\<rparr>
         | _ \<Rightarrow> Inl (ValidationError (errors_of t @ errors_of d @ errors_of r @ errors_of n)))"

text \<open>
  \<^verbatim>\<open>
  @classmethod
  def from_values(cls, values):
      fields = cls.__fields__.keys()
      data = {}
      for key, val in zip(fields, values):
          data.update({key: val})
      instance = cls(**data)
      return instance
  \<close>
  The class is a parameter: its field names and its constructor. \<^verbatim>\<open>zip\<close> stops at the
  shorter of its two arguments.
\<close>

definition from_values ::
  "string list \<Rightarrow> ((string \<rightharpoonup> pyval) \<Rightarrow> py_exception + 'm) \<Rightarrow> pyval list \<Rightarrow> py_exception + 'm" where
  "from_values field_names init values =
     (let data = fold (\<lambda>(key, val) data. data(key \<mapsto> val)) (zip field_names values) Map.empty
      in init data)"

definition Habit_from_values :: "pyval list \<Rightarrow> py_exception + Habit" where
  "Habit_from_values = from_values Habit_fields Habit_init"

text \<open>
  Whether the value at position \<open>i\<close> of a raw sequence is accepted by the validator of the
  \<open>i\<close>-th field of \<^verbatim>\<open>Habit\<close>.
\<close>

definition coercible :: "nat \<Rightarrow> pyval \<Rightarrow> bool" where
  "coercible i v = (if i < 2 then \<not> isl (str_validator v) else \<not> isl (bool_validator v))"

section \<open>The store: the part of SQLite the program relies on\<close>

text \<open>
  The database file holds a catalog (\<^verbatim>\<open>sqlite_master\<close>; only the names of its tables are
  kept, in creation order) and the rows of the table \<^verbatim>\<open>habits\<close> in insertion order. A
  table named \<^verbatim>\<open>habits\<close> is taken to have the columns and constraints of the first
  statement of \<^verbatim>\<open>_CREATE_TABLES\<close>; the rows of other tables, and views and indexes other
  than those SQLite makes by itself, are not modelled.
\<close>

record store =
  tables :: "string list"
  habits :: "row list"

definition empty_store :: store where
  "empty_store = \<lparr>tables = [], habits = []\<rparr>"

text \<open>
  An engine executes one statement on a store: it returns the result rows, or the
  exception that the statement raises, and in both cases the store after the statement
  (a statement that fails may have changed the store before it failed). The model below
  decides the statements the program itself issues, none of which changes the store
  when it fails, and hands every other statement to a parameter \<open>other\<close>, about which
  nothing is assumed.
\<close>

type_synonym engine = "string \<Rightarrow> store \<Rightarrow> (py_exception + row list) \<times> store"

definition dq :: char where
  "dq = CHR 0x22"

definition nul :: char where
  "nul = CHR 0x00"

definition sq :: char where
  "sq = CHR 0x27"

definition whitespace :: "char list" where
  "whitespace = [CHR '' '', CHR 0x09, CHR 0x0A, CHR 0x0D]"

definition upper_char :: "char \<Rightarrow> char" where
  "upper_char c =
     (case map_of (zip ''abcdefghijklmnopqrstuvwxyz'' ''ABCDEFGHIJKLMNOPQRSTUVWXYZ'') c of
        Some u \<Rightarrow> u
      | None \<Rightarrow> c)"

definition upper :: "string \<Rightarrow> string" where
  "upper s = map upper_char s"

text \<open>
  The \<^verbatim>\<open>sqlite3\<close> module of Python (as of version 3.11) looks at the text of a statement by
  itself in two places: to see whether it starts with one of four keywords, and to see
  whether anything follows its first statement. In both it skips white space and the
  two kinds of comment (its function \<^verbatim>\<open>lstrip_sql\<close>) and finds the rest of the text, or
  nothing. Every step takes at least one character, so the length of the text bounds
  their number.
\<close>

fun after_line :: "string \<Rightarrow> string option" where
  "after_line [] = None"
| "after_line (c # cs) = (if c = CHR 0x0A then Some cs else after_line cs)"

fun after_block :: "string \<Rightarrow> string option" where
  "after_block [] = None"
| "after_block [c] = None"
| "after_block (c # c' # cs) =
     (if c = CHR ''*'' \<and> c' = CHR ''/'' then Some cs else after_block (c' # cs))"

fun lstrip_sql :: "nat \<Rightarrow> string \<Rightarrow> string option" where
  "lstrip_sql 0 s = None"
| "lstrip_sql (Suc k) [] = None"
| "lstrip_sql (Suc k) (c # cs) =
     (if c \<in> set [CHR '' '', CHR 0x09, CHR 0x0C, CHR 0x0A, CHR 0x0D] then lstrip_sql k cs
      else if c = CHR ''-'' \<and> take 1 cs = ''-''
      then (case after_line (drop 1 cs) of None \<Rightarrow> None | Some r \<Rightarrow> lstrip_sql k r)
      else if c = CHR ''/'' \<and> take 1 cs = ''*''
      then (case after_block (drop 1 cs) of None \<Rightarrow> None | Some r \<Rightarrow> lstrip_sql k r)
      else Some (c # cs))"

subsection \<open>Tokens of a statement\<close>

datatype token = Word string | LP | RP | Comma | Semi | Other char

definition word_chars :: "char list" where
  "word_chars =
     ''abcdefghijklmnopqrstuvwxyz'' @ ''ABCDEFGHIJKLMNOPQRSTUVWXYZ'' @ ''0123456789'' @ ''_''"

definition flush :: "string \<Rightarrow> token list" where
  "flush w = (if w = [] then [] else [Word w])"

text \<open>The first argument is the word read so far.\<close>

fun lexer :: "string \<Rightarrow> string \<Rightarrow> token list" where
  "lexer w [] = flush w"
| "lexer w (c # cs) =
     (if c \<in> set word_chars then lexer (w @ [c]) cs
      else if c \<in> set whitespace then flush w @ lexer [] cs
      else if c = CHR ''('' then flush w @ LP # lexer [] cs
      else if c = CHR '')'' then flush w @ RP # lexer [] cs
      else if c = CHR '','' then flush w @ Comma # lexer [] cs
      else if c = CHR '';'' then flush w @ Semi # lexer [] cs
      else flush w @ Other c # lexer [] cs)"

text \<open>
  SQLite's keywords (compared without regard to case). A word that is none of them and
  does not start with a digit is an identifier; a word of digits is a number.
\<close>

definition KEYWORDS :: "string list" where
  "KEYWORDS =
     [''ABORT'', ''ACTION'', ''ADD'', ''AFTER'', ''ALL'', ''ALTER'', ''ALWAYS'', ''ANALYZE'',
      ''AND'', ''AS'', ''ASC'', ''ATTACH'', ''AUTOINCREMENT'', ''BEFORE'', ''BEGIN'',
      ''BETWEEN'', ''BY'', ''CASCADE'', ''CASE'', ''CAST'', ''CHECK'', ''COLLATE'', ''COLUMN'',
      ''COMMIT'', ''CONFLICT'', ''CONSTRAINT'', ''CREATE'', ''CROSS'', ''CURRENT'',
      ''CURRENT_DATE'', ''CURRENT_TIME'', ''CURRENT_TIMESTAMP'', ''DATABASE'', ''DEFAULT'',
      ''DEFERRABLE'', ''DEFERRED'', ''DELETE'', ''DESC'', ''DETACH'', ''DISTINCT'', ''DO'',
      ''DROP'', ''EACH'', ''ELSE'', ''END'', ''ESCAPE'', ''EXCEPT'', ''EXCLUDE'', ''EXCLUSIVE'',
      ''EXISTS'', ''EXPLAIN'', ''FAIL'', ''FILTER'', ''FIRST'', ''FOLLOWING'', ''FOR'',
      ''FOREIGN'', ''FROM'', ''FULL'', ''GENERATED'', ''GLOB'', ''GROUP'', ''GROUPS'',
      ''HAVING'', ''IF'', ''IGNORE'', ''IMMEDIATE'', ''IN'', ''INDEX'', ''INDEXED'',
      ''INITIALLY'', ''INNER'', ''INSERT'', ''INSTEAD'', ''INTERSECT'', ''INTO'', ''IS'',
      ''ISNULL'', ''JOIN'', ''KEY'', ''LAST'', ''LEFT'', ''LIKE'', ''LIMIT'', ''MATCH'',
      ''MATERIALIZED'', ''NATURAL'', ''NO'', ''NOT'', ''NOTHING'', ''NOTNULL'', ''NULL'',
      ''NULLS'', ''OF'', ''OFFSET'', ''ON'', ''OR'', ''ORDER'', ''OTHERS'', ''OUTER'', ''OVER'',
      ''PARTITION'', ''PLAN'', ''PRAGMA'', ''PRECEDING'', ''PRIMARY'', ''QUERY'', ''RAISE'',
      ''RANGE'', ''RECURSIVE'', ''REFERENCES'', ''REGEXP'', ''REINDEX'', ''RELEASE'',
      ''RENAME'', ''REPLACE'', ''RESTRICT'', ''RETURNING'', ''RIGHT'', ''ROLLBACK'', ''ROW'',
      ''ROWS'', ''SAVEPOINT'', ''SELECT'', ''SET'', ''TABLE'', ''TEMP'', ''TEMPORARY'', ''THEN'',
      ''TIES'', ''TO'', ''TRANSACTION'', ''TRIGGER'', ''UNBOUNDED'', ''UNION'', ''UNIQUE'',
      ''UPDATE'', ''USING'', ''VACUUM'', ''VALUES'', ''VIEW'', ''VIRTUAL'', ''WHEN'', ''WHERE'',
      ''WINDOW'', ''WITH'', ''WITHOUT'']"

definition is_number :: "string \<Rightarrow> bool" where
  "is_number w = (w \<noteq> [] \<and> list_all (\<lambda>c. c \<in> set ''0123456789'') w)"

definition is_identifier :: "string \<Rightarrow> bool" where
  "is_identifier w =
     (case w of
        [] \<Rightarrow> False
      | c # _ \<Rightarrow> c \<notin> set ''0123456789'' \<and> upper w \<notin> set KEYWORDS)"

definition is_type_word :: "token \<Rightarrow> bool" where
  "is_type_word t = (case t of Word w \<Rightarrow> is_identifier w | _ \<Rightarrow> False)"

subsection \<open>\<^verbatim>\<open>CREATE TABLE\<close>\<close>

text \<open>
  Between the parentheses of \<^verbatim>\<open>CREATE TABLE name ( ... )\<close> stand column definitions and then
  table constraints, separated by commas outside inner parentheses. An item that starts
  with an identifier can only be a column definition: the column's name, the words of
  its type, a size in parentheses (allowed after a type only, and holding one or two
  numbers), and its constraints. The model accepts the constraints \<^verbatim>\<open>UNIQUE\<close>, \<^verbatim>\<open>NULL\<close>,
  \<^verbatim>\<open>NOT NULL\<close> and \<^verbatim>\<open>PRIMARY KEY\<close> and, as the last item, the table constraint
  \<^verbatim>\<open>PRIMARY KEY (columns)\<close>; an item it does not know is \<open>Unrecognised\<close>, and the statement
  is then left to \<open>other\<close>. A column name directly followed by a parenthesis is what
  SQLite rejects with \<^verbatim>\<open>near "(": syntax error\<close>.
\<close>

datatype item = Column string | Constraint "string list" | Syntax_error string | Unrecognised

fun split_items :: "nat \<Rightarrow> token list \<Rightarrow> token list \<Rightarrow> token list list" where
  "split_items depth item [] = [item]"
| "split_items depth item (t # ts) =
     (if t = Comma \<and> depth = 0 then item # split_items 0 [] ts
      else if t = LP then split_items (Suc depth) (item @ [t]) ts
      else if t = RP then split_items (if depth = 0 then 0 else depth - 1) (item @ [t]) ts
      else split_items depth (item @ [t]) ts)"

fun column_constraints :: "token list \<Rightarrow> bool" where
  "column_constraints [] = True"
| "column_constraints [Word a] = (upper a = ''UNIQUE'' \<or> upper a = ''NULL'')"
| "column_constraints (Word a # Word b # ts) =
     (if upper a = ''UNIQUE'' \<or> upper a = ''NULL'' then column_constraints (Word b # ts)
      else if upper a = ''NOT'' \<and> upper b = ''NULL'' then column_constraints ts
      else if upper a = ''PRIMARY'' \<and> upper b = ''KEY'' then column_constraints ts
      else False)"
| "column_constraints _ = False"

definition near_paren :: string where
  "near_paren = ''near '' @ [dq] @ ''('' @ [dq] @ '': syntax error''"

definition column_def :: "token list \<Rightarrow> item" where
  "column_def ts =
     (case ts of
        Word name # rest \<Rightarrow>
          (let type_words = takeWhile is_type_word rest;
               after = dropWhile is_type_word rest
           in case after of
                LP # inner \<Rightarrow>
                  (if type_words = [] then Syntax_error near_paren
                   else case inner of
                          Word n # RP # cs \<Rightarrow>
                            if is_number n \<and> column_constraints cs then Column name
                            else Unrecognised
                        | Word n # Comma # Word m # RP # cs \<Rightarrow>
                            if is_number n \<and> is_number m \<and> column_constraints cs
                            then Column name else Unrecognised
                        | _ \<Rightarrow> Unrecognised)
              | cs \<Rightarrow> if column_constraints cs then Column name else Unrecognised)
      | _ \<Rightarrow> Unrecognised)"

fun column_names :: "token list \<Rightarrow> string list option" where
  "column_names [Word c, RP] = (if is_identifier c then Some [c] else None)"
| "column_names (Word c # Comma # ts) =
     (if is_identifier c then map_option ((#) c) (column_names ts) else None)"
| "column_names _ = None"

definition table_constraint :: "token list \<Rightarrow> item" where
  "table_constraint ts =
     (case ts of
        Word a # Word b # LP # cols \<Rightarrow>
          if upper a = ''PRIMARY'' \<and> upper b = ''KEY''
          then (case column_names cols of Some cs \<Rightarrow> Constraint cs | None \<Rightarrow> Unrecognised)
          else Unrecognised
      | _ \<Rightarrow> Unrecognised)"

definition classify :: "token list \<Rightarrow> item" where
  "classify ts =
     (case ts of
        Word w # _ \<Rightarrow> if is_identifier w then column_def ts else table_constraint ts
      | _ \<Rightarrow> Unrecognised)"

text \<open>
  The items are read from left to right, the names of the columns read so far in the
  first argument. SQLite reports the first error it meets: a syntax error in an item
  counts when the columns before it have different names (names compare without regard
  to case).
\<close>

datatype verdict = Accepted "string list" "string list" | Rejected string | Undecided

fun scan_items :: "string list \<Rightarrow> token list list \<Rightarrow> verdict" where
  "scan_items cols [] = Accepted cols []"
| "scan_items cols (i # items) =
     (case classify i of
        Column name \<Rightarrow> scan_items (cols @ [name]) items
      | Constraint cs \<Rightarrow> if items = [] then Accepted cols cs else Undecided
      | Syntax_error m \<Rightarrow> if distinct (map upper cols) then Rejected m else Undecided
      | Unrecognised \<Rightarrow> Undecided)"

text \<open>
  What a statement is, as far as the model reads it: one of the three queries, an insert
  of rows into \<^verbatim>\<open>habits\<close> (the rows as they are stored), the creation of a table (with the
  syntax error of its body, if it has one), or a statement the model does not decide.
\<close>

datatype statement =
    Select_tables
  | Select_habits
  | Count_habits
  | Insert "row list"
  | Create_table string "string option"
  | Unknown

text \<open>
  A table is created when its columns have different names, the columns of its primary
  key are among them, and \<^verbatim>\<open>PRIMARY KEY\<close> is written once at most. With two primary keys
  SQLite reports that, possibly before a syntax error further on, so the model decides
  neither way then.
\<close>

definition primary_keys :: "token list \<Rightarrow> nat" where
  "primary_keys ts = length (filter (\<lambda>t. case t of Word w \<Rightarrow> upper w = ''PRIMARY'' | _ \<Rightarrow> False) ts)"

definition create_table_body :: "string \<Rightarrow> token list \<Rightarrow> statement" where
  "create_table_body name body =
     (if primary_keys body \<le> 1
      then (case scan_items [] (split_items 0 [] body) of
              Accepted cols key \<Rightarrow>
                if cols \<noteq> [] \<and> distinct (map upper cols)
                   \<and> list_all (\<lambda>c. upper c \<in> set (map upper cols)) key
                then Create_table name None else Unknown
            | Rejected m \<Rightarrow> Create_table name (Some m)
            | Undecided \<Rightarrow> Unknown)
      else Unknown)"

definition strip_semi :: "token list \<Rightarrow> token list" where
  "strip_semi ts = (if ts \<noteq> [] \<and> last ts = Semi then butlast ts else ts)"

text \<open>Names that start with \<^verbatim>\<open>sqlite_\<close> are reserved; SQLite refuses them in its own way.\<close>

definition reserved :: "string \<Rightarrow> bool" where
  "reserved name = (upper (take 7 name) = ''SQLITE_'')"

text \<open>
  The statements on \<^verbatim>\<open>habits\<close> below rely on the columns of that table. The model
  therefore creates a table of that name only from the statement of \<^verbatim>\<open>_CREATE_TABLES\<close>,
  token by token; any other \<^verbatim>\<open>CREATE TABLE habits\<close> is left undecided.
\<close>

definition HABITS_TABLE :: string where
  "HABITS_TABLE = ''CREATE TABLE habits (title varchar (255) UNIQUE NOT NULL, ''
     @ ''description varchar (2048), require bool NOT NULL, negative bool NOT NULL, ''
     @ ''PRIMARY KEY (title))''"

definition parse_create_table :: "string \<Rightarrow> statement" where
  "parse_create_table sql =
     (let ts = strip_semi (lexer [] sql)
      in case ts of
           Word c # Word t # Word name # LP # rest \<Rightarrow>
             if upper c = ''CREATE'' \<and> upper t = ''TABLE'' \<and> is_identifier name
                \<and> \<not> reserved name \<and> rest \<noteq> [] \<and> last rest = RP
                \<and> (ts = lexer [] HABITS_TABLE \<or> upper name \<noteq> ''HABITS'')
             then create_table_body name (butlast rest)
             else Unknown
         | _ \<Rightarrow> Unknown)"

text \<open>
  Table names compare without regard to case. SQLite looks for the table before it
  reads the body of the statement, so the error of a table that exists comes first.
\<close>

definition has_table :: "string \<Rightarrow> store \<Rightarrow> bool" where
  "has_table name db = (upper name \<in> set (map upper (tables db)))"

definition create_table ::
  "string \<Rightarrow> string option \<Rightarrow> store \<Rightarrow> (py_exception + row list) \<times> store" where
  "create_table name error db =
     (if has_table name db
      then (Inl (OperationalError (''table '' @ name @ '' already exists'')), db)
      else case error of
             Some m \<Rightarrow> (Inl (OperationalError m), db)
           | None \<Rightarrow>
               (Inr [], db\<lparr>tables := tables db @ [name],
                          habits := (if upper name = ''HABITS'' then [] else habits db)\<rparr>))"

subsection \<open>\<^verbatim>\<open>INSERT INTO habits\<close>\<close>

text \<open>
  A value in double quotes. No column is in scope in a \<^verbatim>\<open>VALUES\<close> list, so SQLite (as
  it is built by default) reads such a token as a string literal; inside it two double
  quotes stand for one, and a single one ends it. \<open>dq_body\<close> reads on after the opening
  quote and returns the string and the text that follows; it returns \<open>None\<close> when the
  closing quote is missing.
\<close>

fun dq_body :: "string \<Rightarrow> (string \<times> string) option" where
  "dq_body [] = None"
| "dq_body [c] = (if c = dq then Some ([], []) else None)"
| "dq_body (c # c' # cs) =
     (if c \<noteq> dq then map_option (\<lambda>(s, r). (c # s, r)) (dq_body (c' # cs))
      else if c' = dq then map_option (\<lambda>(s, r). (dq # s, r)) (dq_body cs)
      else Some ([], c' # cs))"

definition dq_string :: "string \<Rightarrow> (string \<times> string) option" where
  "dq_string s = (case s of [] \<Rightarrow> None | c # cs \<Rightarrow> if c = dq then dq_body cs else None)"

definition expect :: "string \<Rightarrow> string \<Rightarrow> string option" where
  "expect p s = (if take (length p) s = p then Some (drop (length p) s) else None)"

text \<open>
  A value of a row is a string in double quotes or a number written with digits alone
  (at most 18 of them, so that it is a 64-bit integer).
\<close>

datatype expr = Quoted string | Number nat

definition digit_value :: "char \<Rightarrow> nat" where
  "digit_value c = length (takeWhile (\<lambda>d. d \<noteq> c) ''0123456789'')"

definition number :: "string \<Rightarrow> (nat \<times> string) option" where
  "number s =
     (let ds = takeWhile (\<lambda>c. c \<in> set ''0123456789'') s
      in if ds = [] \<or> 18 < length ds then None
         else Some (foldl (\<lambda>n c. 10 * n + digit_value c) 0 ds, drop (length ds) s))"

definition parse_expr :: "string \<Rightarrow> (expr \<times> string) option" where
  "parse_expr s =
     (case dq_string s of
        Some (a, r) \<Rightarrow> Some (Quoted a, r)
      | None \<Rightarrow> map_option (\<lambda>(n, r). (Number n, r)) (number s))"

text \<open>
  One row of values, written \<^verbatim>\<open>("a", "b", 0, 1)\<close>: the values are separated by \<^verbatim>\<open>, \<close>, as
  \<^verbatim>\<open>habit_add\<close> writes them. Every value takes at least one character, so the length of
  the text bounds their number.
\<close>

fun row_values :: "nat \<Rightarrow> string \<Rightarrow> (expr list \<times> string) option" where
  "row_values 0 s = None"
| "row_values (Suc k) s =
     (case parse_expr s of
        None \<Rightarrow> None
      | Some (v, r) \<Rightarrow>
          (case expect '')'' r of
             Some r' \<Rightarrow> Some ([v], r')
           | None \<Rightarrow>
               (case expect '', '' r of
                  None \<Rightarrow> None
                | Some r' \<Rightarrow> map_option (\<lambda>(vs, t). (v # vs, t)) (row_values k r'))))"

definition values_row :: "string \<Rightarrow> (expr list \<times> string) option" where
  "values_row s = (case expect ''('' s of None \<Rightarrow> None | Some r \<Rightarrow> row_values (length r) r)"

text \<open>
  \<^verbatim>\<open>execute\<close> takes one statement: after the semicolon that closes it, nothing but white
  space and comments may follow.
\<close>

definition nothing_follows :: "string \<Rightarrow> bool" where
  "nothing_follows s = (lstrip_sql (Suc (length s)) s = None)"

text \<open>
  The rows of a \<^verbatim>\<open>VALUES\<close> list, separated by \<^verbatim>\<open>, \<close> and closed by \<^verbatim>\<open>;\<close>. Every row takes
  at least one character, so the length of the text bounds the number of rows.
\<close>

fun values_rows :: "nat \<Rightarrow> string \<Rightarrow> expr list list option" where
  "values_rows 0 s = None"
| "values_rows (Suc k) s =
     (case values_row s of
        None \<Rightarrow> None
      | Some (v, r) \<Rightarrow>
          (case expect '';'' r of
             Some r' \<Rightarrow> if nothing_follows r' then Some [v] else None
           | None \<Rightarrow>
               (case expect '', '' r of
                  None \<Rightarrow> None
                | Some r' \<Rightarrow> map_option ((#) v) (values_rows k r'))))"

text \<open>
  The columns of the statement are the names of the options as click passes them,
  separated by \<^verbatim>\<open>, \<close>: the four columns of the table, each once, in any order.
\<close>

definition COLUMNS :: "string list" where
  "COLUMNS = [''title'', ''description'', ''require'', ''negative'']"

fun split_names :: "string \<Rightarrow> string \<Rightarrow> string list" where
  "split_names w [] = [w]"
| "split_names w [c] = [w @ [c]]"
| "split_names w (c # c' # cs) =
     (if c = CHR '','' \<and> c' = CHR '' '' then w # split_names [] cs
      else split_names (w @ [c]) (c' # cs))"

definition column_list :: "string \<Rightarrow> (string list \<times> string) option" where
  "column_list s =
     (let names = takeWhile (\<lambda>c. c \<noteq> CHR '')'') s
      in map_option (\<lambda>r. (split_names [] names, r)) (expect '')'' (drop (length names) s)))"

text \<open>
  What is stored for a value depends on the column. \<^verbatim>\<open>title\<close> and \<^verbatim>\<open>description\<close> are
  declared \<^verbatim>\<open>varchar\<close>, which gives them text affinity: a number is stored as the text of
  its decimal digits. \<^verbatim>\<open>require\<close> and \<^verbatim>\<open>negative\<close> are declared \<^verbatim>\<open>bool\<close>, which gives them
  numeric affinity: a number is stored as an integer, a text that reads as a number as
  that number, and any other text as it is. For a text in these two columns the model
  decides the statement only when it is \<^verbatim>\<open>True\<close> or \<^verbatim>\<open>False\<close>, which are not numbers.
\<close>

definition text_affinity :: "expr \<Rightarrow> sqlval" where
  "text_affinity v = (case v of Quoted a \<Rightarrow> Text a | Number n \<Rightarrow> Text (str_nat n))"

definition numeric_affinity :: "expr \<Rightarrow> sqlval option" where
  "numeric_affinity v =
     (case v of
        Quoted a \<Rightarrow> if a \<in> set [''True'', ''False''] then Some (Text a) else None
      | Number n \<Rightarrow> Some (Integer (int n)))"

text \<open>The row that is stored, in the order of the columns of the table.\<close>

definition stored_row :: "string list \<Rightarrow> expr list \<Rightarrow> row option" where
  "stored_row names vs =
     (if length vs = length names
      then (case map (map_of (zip names vs)) COLUMNS of
              [Some a, Some b, Some c, Some d] \<Rightarrow>
                (case (numeric_affinity c, numeric_affinity d) of
                   (Some c', Some d') \<Rightarrow> Some [text_affinity a, text_affinity b, c', d']
                 | _ \<Rightarrow> None)
            | _ \<Rightarrow> None)
      else None)"

text \<open>
  The statement that \<^verbatim>\<open>habit_add\<close> builds, read as SQLite reads it. Strings are strings of
  bytes; SQLite's limit on the length of a statement is not modelled.
\<close>

definition INSERT_INTO :: string where
  "INSERT_INTO = ''INSERT INTO habits (''"

definition parse_insert :: "string \<Rightarrow> row list option" where
  "parse_insert sql =
     Option.bind (expect INSERT_INTO sql) (\<lambda>r.
     Option.bind (column_list r) (\<lambda>(names, r).
     if distinct names \<and> length names = length COLUMNS \<and> list_all (\<lambda>c. c \<in> set names) COLUMNS
     then Option.bind (expect '' VALUES '' r) (\<lambda>r.
          Option.bind (values_rows (length r) r) (\<lambda>rows.
          those (map (stored_row names) rows)))
     else None))"

definition title_of :: "row \<Rightarrow> sqlval option" where
  "title_of r = (case r of [] \<Rightarrow> None | v # _ \<Rightarrow> Some v)"

text \<open>
  The statement fails as a whole, and inserts nothing, when the table is missing or when
  a title would occur twice (\<^verbatim>\<open>title\<close> is \<^verbatim>\<open>UNIQUE\<close> and the primary key).
\<close>

definition no_such_table :: py_exception where
  "no_such_table = OperationalError ''no such table: habits''"

definition insert_habits :: "row list \<Rightarrow> store \<Rightarrow> (py_exception + row list) \<times> store" where
  "insert_habits new db =
     (if \<not> has_table ''habits'' db
      then (Inl no_such_table, db)
      else if distinct (map title_of new)
              \<and> list_all (\<lambda>r. title_of r \<notin> set (map title_of (habits db))) new
      then (Inr [], db\<lparr>habits := habits db @ new\<rparr>)
      else (Inl (IntegrityError ''UNIQUE constraint failed: habits.title''), db))"

subsection \<open>The engine\<close>

definition SELECT_TABLES :: string where
  "SELECT_TABLES = ''SELECT * FROM sqlite_master WHERE type='' @ [sq] @ ''table'' @ [sq]"

definition SELECT_HABITS :: string where
  "SELECT_HABITS = ''SELECT * FROM habits;''"

definition COUNT_HABITS :: string where
  "COUNT_HABITS = ''SELECT COUNT(*) FROM habits''"

text \<open>
  The catalog query returns one row per table (reduced here to its type and name), the
  two queries on \<^verbatim>\<open>habits\<close> its rows and their number. Python refuses a statement that
  holds a NUL character before SQLite reads it, with an exception that depends on its
  version; such a statement is left undecided.
\<close>

definition statement_of :: "string \<Rightarrow> statement" where
  "statement_of sql =
     (if nul \<in> set sql then Unknown
      else if sql = SELECT_TABLES then Select_tables
      else if sql = SELECT_HABITS then Select_habits
      else if sql = COUNT_HABITS then Count_habits
      else case parse_insert sql of
             Some rows \<Rightarrow> Insert rows
           | None \<Rightarrow> parse_create_table sql)"

definition sqlite :: "engine \<Rightarrow> engine" where
  "sqlite other sql db =
     (case statement_of sql of
        Select_tables \<Rightarrow> (Inr (map (\<lambda>n. [Text ''table'', Text n]) (tables db)), db)
      | Select_habits \<Rightarrow>
          (if has_table ''habits'' db then Inr (habits db) else Inl no_such_table, db)
      | Count_habits \<Rightarrow>
          (if has_table ''habits'' db
           then Inr [[Integer (int (length (habits db)))]] else Inl no_such_table, db)
      | Insert rows \<Rightarrow> insert_habits rows db
      | Create_table name error \<Rightarrow> create_table name error db
      | Unknown \<Rightarrow> other sql db)"

section \<open>The process: files, the connection, logging and output\<close>

text \<open>
  One run of the program is one process. Its state holds the directories and database
  files it can see (every file is an SQLite database: a file of another kind is not
  modelled), the temporary database of its connection when that has one, the
  uncommitted view of its one connection (\<open>None\<close> outside a transaction), the logging
  threshold, and what it has written to the log and printed. A connection is known by
  the path it was opened with; a path with no file reads as the empty store, which is
  what SQLite makes of it.
\<close>

datatype cli_value = CNone | CStr string | CBool bool

datatype log_arg = Str string | Kwargs "(string \<times> cli_value) list"

type_synonym log_record = "nat \<times> string \<times> log_arg list"

datatype printed = Habits "Habit list" | Rows "row list"

type_synonym connection = string

record process =
  dirs :: "string list"
  files :: "string \<rightharpoonup> store"
  memory :: store
  transaction :: "store option"
  level :: nat
  stderr :: "log_record list"
  stdout :: "printed list"

definition DEBUG :: nat where "DEBUG = 10"
definition INFO :: nat where "INFO = 20"
definition WARNING :: nat where "WARNING = 30"

text \<open>
  \<^verbatim>\<open>
  def _logging(level):
      logger.setLevel(level)
      logging.basicConfig(level=level)
  \<close>
  A record is written when its level reaches the threshold, which is \<^verbatim>\<open>WARNING\<close> until
  \<^verbatim>\<open>_logging\<close> is called.
\<close>

definition logging :: "nat \<Rightarrow> process \<Rightarrow> process" where
  "logging lvl s = s\<lparr>level := lvl\<rparr>"

definition log :: "nat \<Rightarrow> string \<Rightarrow> log_arg list \<Rightarrow> process \<Rightarrow> process" where
  "log lvl msg args s = (if level s \<le> lvl then s\<lparr>stderr := stderr s @ [(lvl, msg, args)]\<rparr> else s)"

definition start :: "string list \<Rightarrow> (string \<rightharpoonup> store) \<Rightarrow> process" where
  "start ds fs =
     \<lparr>dirs = ds, files = fs, memory = empty_store, transaction = None, level = WARNING,
      stderr = [], stdout = []\<rparr>"

subsection \<open>The \<^verbatim>\<open>sqlite3\<close> module\<close>

definition dirname :: "string \<Rightarrow> string" where
  "dirname p =
     (let head = rev (dropWhile (\<lambda>c. c \<noteq> CHR ''/'') (rev p))
      in if head \<noteq> [] \<and> \<not> list_all (\<lambda>c. c = CHR ''/'') head
         then rev (dropWhile (\<lambda>c. c = CHR ''/'') (rev head))
         else head)"

text \<open>
  SQLite opens the path \<^verbatim>\<open>:memory:\<close> and the empty path as a temporary database of the
  connection, which starts empty and is never a file. Any other path is opened as a
  file, or created, unless it names a directory or its directory does not exist (other
  reasons for a file not to open, such as missing rights, are not modelled; nor are
  links). A directory is known under the names in \<open>dirs\<close>; the current directory, the
  one above it and the root are always there. Whether a path names a directory is
  decided as SQLite resolves a path: on its elements, without the empty ones and \<^verbatim>\<open>.\<close>,
  and with \<^verbatim>\<open>..\<close> taking away the element before it. A file is known by its path as it
  is written, and the directory of a path is taken from its text (\<open>dirname\<close>): a path
  that ends with a slash, which SQLite opens as the path without it, is not opened
  here. Python refuses a path that holds a NUL character.
\<close>

definition temporary :: "string \<Rightarrow> bool" where
  "temporary p = (p = [] \<or> p = '':memory:'')"

fun split_path :: "string \<Rightarrow> string \<Rightarrow> string list" where
  "split_path e [] = [e]"
| "split_path e (c # cs) =
     (if c = CHR ''/'' then e # split_path [] cs else split_path (e @ [c]) cs)"

definition walk :: "bool \<Rightarrow> string list \<Rightarrow> string \<Rightarrow> string list" where
  "walk absolute es e =
     (if e = [] \<or> e = ''.'' then es
      else if e = ''..''
      then (if es \<noteq> [] \<and> last es \<noteq> ''..'' then butlast es
            else if absolute then es else es @ [e])
      else es @ [e])"

definition canonical :: "string \<Rightarrow> bool \<times> string list" where
  "canonical p =
     (let absolute = (take 1 p = ''/'')
      in (absolute, foldl (walk absolute) [] (split_path [] p)))"

definition is_dir :: "string \<Rightarrow> process \<Rightarrow> bool" where
  "is_dir p s =
     (canonical p \<in> set (map canonical (''.'' # ''/'' # dirs s))
      \<or> (snd (canonical p) \<noteq> [] \<and> last (snd (canonical p)) = ''..''))"

definition database_file :: "string \<Rightarrow> process \<Rightarrow> bool" where
  "database_file p s =
     (\<not> temporary p \<and> nul \<notin> set p \<and> \<not> is_dir p s \<and> is_dir (dirname p) s)"

definition connect :: "string \<Rightarrow> process \<Rightarrow> (py_exception + connection) \<times> process" where
  "connect p s =
     (if nul \<in> set p then (Inl (ValueError ''embedded null byte''), s)
      else if temporary p then (Inr p, s\<lparr>memory := empty_store\<rparr>)
      else if database_file p s then (Inr p, s)
      else (Inl (OperationalError ''unable to open database file''), s))"

text \<open>
  What the database file at a path holds: nothing when the path is not that of a file.
  \<open>committed\<close> is what the connection holds outside a transaction, and \<open>current\<close> what its
  statements see.
\<close>

definition stored :: "connection \<Rightarrow> process \<Rightarrow> store" where
  "stored con s =
     (if temporary con \<or> nul \<in> set con \<or> is_dir con s then empty_store
      else case files s con of None \<Rightarrow> empty_store | Some db \<Rightarrow> db)"

definition committed :: "connection \<Rightarrow> process \<Rightarrow> store" where
  "committed con s = (if temporary con then memory s else stored con s)"

definition current :: "connection \<Rightarrow> process \<Rightarrow> store" where
  "current con s = (case transaction s of None \<Rightarrow> committed con s | Some db \<Rightarrow> db)"

text \<open>
  \<^verbatim>\<open>os.path.exists\<close>, which is decided like \<open>is_dir\<close> for a directory, and \<^verbatim>\<open>os.makedirs\<close>,
  which makes the directory and those above it that are missing. The directory above a
  path is shorter than the path, which bounds their number.
\<close>

definition exists_path :: "string \<Rightarrow> process \<Rightarrow> bool" where
  "exists_path p s = ((p \<noteq> [] \<and> is_dir p s) \<or> files s p \<noteq> None)"

fun ancestors :: "nat \<Rightarrow> string \<Rightarrow> string list" where
  "ancestors 0 p = []"
| "ancestors (Suc k) p =
     (if list_all (\<lambda>c. c = CHR ''/'') p then [] else p # ancestors k (dirname p))"

definition makedirs :: "string \<Rightarrow> process \<Rightarrow> process" where
  "makedirs p s =
     s\<lparr>dirs := filter (\<lambda>d. d \<notin> set (dirs s)) (ancestors (Suc (length p)) p) @ dirs s\<rparr>"

text \<open>
  The module opens a transaction by itself before a statement that starts, after white
  space and comments, with \<^verbatim>\<open>INSERT\<close>, \<^verbatim>\<open>UPDATE\<close>, \<^verbatim>\<open>DELETE\<close> or \<^verbatim>\<open>REPLACE\<close> in any case
  of the letters; what is done inside a transaction reaches the file at \<^verbatim>\<open>commit()\<close>
  only. Any other statement outside a transaction
  takes effect on the file at once (\<open>save\<close>; the file is left alone when nothing
  changes), also when it ends with an exception after it has changed something.
\<close>

definition is_dml :: "string \<Rightarrow> bool" where
  "is_dml sql =
     (case lstrip_sql (Suc (length sql)) sql of
        None \<Rightarrow> False
      | Some p \<Rightarrow>
          list_ex (\<lambda>k. lower (take (length k) p) = k)
            [''insert'', ''update'', ''delete'', ''replace''])"

definition save :: "connection \<Rightarrow> store \<Rightarrow> process \<Rightarrow> process" where
  "save con db s =
     (if temporary con then s\<lparr>memory := db\<rparr>
      else if db = stored con s then s
      else s\<lparr>files := (files s)(con \<mapsto> db)\<rparr>)"

definition cursor_execute ::
  "engine \<Rightarrow> connection \<Rightarrow> string \<Rightarrow> process \<Rightarrow> (py_exception + row list) \<times> process" where
  "cursor_execute other con sql s =
     (let s1 = (if is_dml sql \<and> transaction s = None
                then s\<lparr>transaction := Some (committed con s)\<rparr> else s);
          (result, db) = sqlite other sql (current con s1)
      in (result,
          case transaction s1 of
            None \<Rightarrow> save con db s1
          | Some _ \<Rightarrow> s1\<lparr>transaction := Some db\<rparr>))"

definition commit :: "connection \<Rightarrow> process \<Rightarrow> process" where
  "commit con s =
     (case transaction s of
        None \<Rightarrow> s
      | Some db \<Rightarrow> (save con db s)\<lparr>transaction := None\<rparr>)"

text \<open>
  \<^verbatim>\<open>executescript\<close> commits what is pending and runs the statements of the script one
  after the other, each taking effect at once; it stops at the first that fails, and
  what the earlier ones did stays, as does what the failing one did before it failed.
  The script is cut after every semicolon, which is right for a script without string
  literals or comments.
\<close>

fun split_script :: "string \<Rightarrow> string \<Rightarrow> string list" where
  "split_script stmt [] = [stmt]"
| "split_script stmt (c # cs) =
     (if c = CHR '';'' then (stmt @ [c]) # split_script [] cs
      else split_script (stmt @ [c]) cs)"

fun run_statements ::
  "engine \<Rightarrow> connection \<Rightarrow> string list \<Rightarrow> process \<Rightarrow> (py_exception + unit) \<times> process" where
  "run_statements other con [] s = (Inr (), s)"
| "run_statements other con (stmt # stmts) s =
     (if list_all (\<lambda>c. c \<in> set whitespace) stmt then run_statements other con stmts s
      else case sqlite other stmt (committed con s) of
             (Inl e, db) \<Rightarrow> (Inl e, save con db s)
           | (Inr rows, db) \<Rightarrow> run_statements other con stmts (save con db s))"

definition executescript ::
  "engine \<Rightarrow> connection \<Rightarrow> string \<Rightarrow> process \<Rightarrow> (py_exception + unit) \<times> process" where
  "executescript other con script s =
     run_statements other con (split_script [] script) (commit con s)"

section \<open>The program\<close>

text \<open>
  The directory \<^verbatim>\<open>_DATA_DIR\<close> comes from \<^verbatim>\<open>appdirs\<close> and depends on the platform and the
  user: it is a parameter \<open>DATA_DIR\<close> of what follows.
\<close>

definition DATABASE_FILE_NAME :: string where
  "DATABASE_FILE_NAME = ''db.sqlite3''"

definition path_join :: "string \<Rightarrow> string \<Rightarrow> string" where
  "path_join a b =
     (if take 1 b = ''/'' \<or> a = [] then b
      else if last a = CHR ''/'' then a @ b
      else a @ ''/'' @ b)"

definition DATABASE_FILE_PATH :: "string \<Rightarrow> string" where
  "DATABASE_FILE_PATH DATA_DIR = path_join DATA_DIR DATABASE_FILE_NAME"

text \<open>
  \<^verbatim>\<open>
  def _filter_kwargs(data):
      result = {}
      for key, val in data.items():
          if val is not None:
              result.update({key: val})
      return result
  \<close>
  Keyword arguments are kept as the list of their (name, value) pairs, in the order
  click passes them; the names are distinct.
\<close>

definition filter_kwargs :: "(string \<times> cli_value) list \<Rightarrow> (string \<times> cli_value) list" where
  "filter_kwargs data = filter (\<lambda>(key, val). val \<noteq> CNone) data"

definition nl :: char where
  "nl = CHR 0x0A"

text \<open>The text of \<^verbatim>\<open>_CREATE_TABLES\<close>, line by line.\<close>

definition CREATE_TABLES :: string where
  "CREATE_TABLES = nl # concat (map (\<lambda>line. line @ [nl])
     [''CREATE TABLE habits ('',
      ''    title varchar (255) UNIQUE NOT NULL,'',
      ''    description varchar (2048),'',
      ''    require bool NOT NULL,'',
      ''    negative bool NOT NULL,'',
      ''    PRIMARY KEY (title)'',
      '');'',
      ''CREATE TABLE habit_records ('',
      ''    uuid varchar (255) UNIQUE NOT NULL,'',
      ''    habit int NOT NULL,'',
      ''    added datetime NOT NULL,'',
      ''    PRIMARY_KEY (uuid),'',
      ''    FOREGIN KEY (habit) REFERENCES habits(title)'',
      '');'',
      ''CREATE TABLE habit_names ('',
      ''    habit int NOT NULL,'',
      ''    name varchar (255) UNIQUE NOT NULL,'',
      ''    PRIMARY_KEY (name),'',
      ''    FOREGIN KEY (habit) REFERENCES habits(title)'',
      '');''])"

text \<open>
  \<^verbatim>\<open>
  def _check_dir(directory):
      logger.info("Checking database directory '%s'.", directory)
      if not os.path.exists(directory):
          os.makedirs(directory)
  \<close>
  \<^verbatim>\<open>os.makedirs\<close> is taken to succeed.
\<close>

definition check_dir :: "string \<Rightarrow> process \<Rightarrow> process" where
  "check_dir directory s =
     (let s1 = log INFO ''Checking database directory '%s'.'' [Str directory] s
      in if \<not> exists_path directory s1 then makedirs directory s1 else s1)"

text \<open>
  \<^verbatim>\<open>
  def create_tables(connection: sqlite3.Connection):
      logger.info("Creating tables.")
      cursor = connection.cursor()
      cursor.executescript(_CREATE_TABLES)
      connection.commit()
  \<close>
\<close>

definition create_tables ::
  "engine \<Rightarrow> connection \<Rightarrow> process \<Rightarrow> (py_exception + unit) \<times> process" where
  "create_tables other con s =
     (let s1 = log INFO ''Creating tables.'' [] s
      in case executescript other con CREATE_TABLES s1 of
           (Inl e, s2) \<Rightarrow> (Inl e, s2)
         | (Inr u, s2) \<Rightarrow> (Inr (), commit con s2))"

text \<open>
  \<^verbatim>\<open>
  def _check_database(database: str) -> sqlite3.Connection:
      logger.info("Checking database file '%s'.", database)
      connection = sqlite3.connect(database)
      cursor = connection.cursor()
      tables = cursor.execute(
          """SELECT * FROM sqlite_master WHERE type='table'"""
      ).fetchall()
      if not tables:
          create_tables(connection)
      return connection
  \<close>
\<close>

definition check_database ::
  "engine \<Rightarrow> string \<Rightarrow> process \<Rightarrow> (py_exception + connection) \<times> process" where
  "check_database other path s =
     (let s1 = log INFO ''Checking database file '%s'.'' [Str path] s
      in case connect path s1 of
           (Inl e, s2) \<Rightarrow> (Inl e, s2)
         | (Inr con, s2) \<Rightarrow>
             (case cursor_execute other con SELECT_TABLES s2 of
                (Inl e, s3) \<Rightarrow> (Inl e, s3)
              | (Inr found, s3) \<Rightarrow>
                  if found = [] then
                    (case create_tables other con s3 of
                       (Inl e, s4) \<Rightarrow> (Inl e, s4)
                     | (Inr u, s4) \<Rightarrow> (Inr con, s4))
                  else (Inr con, s3)))"

text \<open>
  \<^verbatim>\<open>
  @dataclasses.dataclass
  class HabitsTrackerSettings:
      connection: sqlite3.Connection
      database: str = _DATABASE_FILE_PATH
      verbose: bool = False
      debug: bool = False
  \<close>
\<close>

record HabitsTrackerSettings =
  connection :: connection
  database :: cli_value
  verbose :: cli_value
  debug :: cli_value

definition HabitsTrackerSettings_init ::
  "string \<Rightarrow> (string \<times> cli_value) list \<Rightarrow> connection \<Rightarrow> HabitsTrackerSettings" where
  "HabitsTrackerSettings_init DATA_DIR kwargs con =
     \<lparr>connection = con,
      database = (case map_of kwargs ''database'' of
                    None \<Rightarrow> CStr (DATABASE_FILE_PATH DATA_DIR) | Some v \<Rightarrow> v),
      verbose = (case map_of kwargs ''verbose'' of None \<Rightarrow> CBool False | Some v \<Rightarrow> v),
      debug = (case map_of kwargs ''debug'' of None \<Rightarrow> CBool False | Some v \<Rightarrow> v)\<rparr>"

text \<open>Python's truth value of an option value, its \<^verbatim>\<open>str()\<close>, and \<^verbatim>\<open>kwargs[key]\<close>.\<close>

definition truthy :: "cli_value \<Rightarrow> bool" where
  "truthy v = (case v of CNone \<Rightarrow> False | CStr s \<Rightarrow> s \<noteq> [] | CBool b \<Rightarrow> b)"

definition str :: "cli_value \<Rightarrow> string" where
  "str v = (case v of CNone \<Rightarrow> ''None'' | CStr s \<Rightarrow> s | CBool b \<Rightarrow> str_bool b)"

definition item_of :: "(string \<times> cli_value) list \<Rightarrow> string \<Rightarrow> cli_value" where
  "item_of kwargs key = (case map_of kwargs key of None \<Rightarrow> CNone | Some v \<Rightarrow> v)"

text \<open>
  \<^verbatim>\<open>
  def commands(context, **kwargs):
      if kwargs["verbose"] or kwargs["debug"]:
          if kwargs["debug"]:
              level = logging.DEBUG
          else:
              level = logging.INFO
          _logging(level)
          logging.info("kwargs: '%s'", kwargs)
      db = kwargs["database"]
      if not db:
          _check_dir(_DATA_DIR)
          connection = _check_database(_DATABASE_FILE_PATH)
      else:
          connection = _check_database(db)
      context.obj = HabitsTrackerSettings(
              **_filter_kwargs(kwargs),
              connection=connection)
  \<close>
  click always passes the three options \<^verbatim>\<open>database\<close>, \<^verbatim>\<open>verbose\<close> and \<^verbatim>\<open>debug\<close>. The
  function returns the object it stores in the context.
\<close>

definition commands ::
  "engine \<Rightarrow> string \<Rightarrow> (string \<times> cli_value) list \<Rightarrow> process
     \<Rightarrow> (py_exception + HabitsTrackerSettings) \<times> process" where
  "commands other DATA_DIR kwargs s =
     (let s1 = (if truthy (item_of kwargs ''verbose'') \<or> truthy (item_of kwargs ''debug'')
                then let lvl = (if truthy (item_of kwargs ''debug'') then DEBUG else INFO)
                     in log INFO (''kwargs: '%s'' @ [sq]) [Kwargs kwargs] (logging lvl s)
                else s);
          db = item_of kwargs ''database'';
          checked = (if \<not> truthy db
                     then check_database other (DATABASE_FILE_PATH DATA_DIR) (check_dir DATA_DIR s1)
                     else check_database other (str db) s1)
      in case checked of
           (Inl e, s2) \<Rightarrow> (Inl e, s2)
         | (Inr con, s2) \<Rightarrow>
             (Inr (HabitsTrackerSettings_init DATA_DIR (filter_kwargs kwargs) con), s2))"

text \<open>Python's \<^verbatim>\<open>sep.join(parts)\<close> and the f-string \<^verbatim>\<open>f'"{x}"'\<close>.\<close>

fun join :: "string \<Rightarrow> string list \<Rightarrow> string" where
  "join sep [] = []"
| "join sep [x] = x"
| "join sep (x # y # ys) = x @ sep @ join sep (y # ys)"

definition quoted :: "cli_value \<Rightarrow> string" where
  "quoted x = [dq] @ str x @ [dq]"

text \<open>
  \<^verbatim>\<open>
  def habit_add(context, **kwargs):
      logger.debug("Adding habit: '%s'", kwargs)
      con = context.obj.connection
      cur = con.cursor()
      fields = ", ".join([str(x) for x in kwargs.keys()])
      values = ", ".join([f'"{x}"' for x in kwargs.values()])
      insert = f"INSERT INTO habits ({fields}) VALUES ({values});"
      logger.debug(insert)
      cur.execute(insert)
      con.commit()
      return
  \<close>
\<close>

definition insert_statement :: "(string \<times> cli_value) list \<Rightarrow> string" where
  "insert_statement kwargs =
     (let field_list = join '', '' (map fst kwargs);
          value_list = join '', '' (map quoted (map snd kwargs))
      in ''INSERT INTO habits ('' @ field_list @ '') VALUES ('' @ value_list @ '');'')"

definition habit_add ::
  "engine \<Rightarrow> HabitsTrackerSettings \<Rightarrow> (string \<times> cli_value) list \<Rightarrow> process
     \<Rightarrow> (py_exception + unit) \<times> process" where
  "habit_add other obj kwargs s =
     (let s1 = log DEBUG (''Adding habit: '%s'' @ [sq]) [Kwargs kwargs] s;
          con = connection obj;
          insert = insert_statement kwargs;
          s2 = log DEBUG insert [] s1
      in case cursor_execute other con insert s2 of
           (Inl e, s3) \<Rightarrow> (Inl e, s3)
         | (Inr rows, s3) \<Rightarrow> (Inr (), commit con s3))"

text \<open>
  A list comprehension stops at the first element that raises.
\<close>

fun comprehension :: "('a \<Rightarrow> 'e + 'b) \<Rightarrow> 'a list \<Rightarrow> 'e + 'b list" where
  "comprehension f [] = Inr []"
| "comprehension f (x # xs) =
     (case f x of
        Inl e \<Rightarrow> Inl e
      | Inr y \<Rightarrow> (case comprehension f xs of Inl e \<Rightarrow> Inl e | Inr ys \<Rightarrow> Inr (y # ys)))"

text \<open>
  \<^verbatim>\<open>
  def habits_list(context):
      con = context.obj.connection
      cur = con.cursor()
      habits_data = cur.execute("SELECT * FROM habits;").fetchall()
      habits = [Habit.from_values(data) for data in habits_data]
      rich.print(habits)
  \<close>
\<close>

definition habits_list ::
  "engine \<Rightarrow> HabitsTrackerSettings \<Rightarrow> process \<Rightarrow> (py_exception + unit) \<times> process" where
  "habits_list other obj s =
     (let con = connection obj
      in case cursor_execute other con SELECT_HABITS s of
           (Inl e, s1) \<Rightarrow> (Inl e, s1)
         | (Inr habits_data, s1) \<Rightarrow>
             (case comprehension (\<lambda>data. Habit_from_values (map py_of_sql data)) habits_data of
                Inl e \<Rightarrow> (Inl e, s1)
              | Inr hs \<Rightarrow> (Inr (), s1\<lparr>stdout := stdout s1 @ [Habits hs]\<rparr>)))"

text \<open>
  \<^verbatim>\<open>
  def exec_sql(context, command):
      con = context.obj.connection
      cur = con.cursor()
      result = cur.execute(command).fetchall()
      if result:
          rich.print(result)
  \<close>
\<close>

definition exec_sql ::
  "engine \<Rightarrow> HabitsTrackerSettings \<Rightarrow> string \<Rightarrow> process \<Rightarrow> (py_exception + unit) \<times> process" where
  "exec_sql other obj command s =
     (let con = connection obj
      in case cursor_execute other con command s of
           (Inl e, s1) \<Rightarrow> (Inl e, s1)
         | (Inr result, s1) \<Rightarrow>
             (Inr (), if result \<noteq> [] then s1\<lparr>stdout := stdout s1 @ [Rows result]\<rparr> else s1))"

text \<open>
  \<^verbatim>\<open>main()\<close> runs the group callback \<^verbatim>\<open>commands\<close> and then the subcommand. Neither they nor
  click catch the exceptions of \<^verbatim>\<open>sqlite3\<close> and pydantic: \<open>Inl e\<close> here is the exception
  that ends the process with a traceback. When the process ends, the connection is
  closed: a transaction that was not committed is lost, and so is a temporary database.
\<close>

datatype command =
    Add "(string \<times> cli_value) list"
  | Listing
  | Exec string

definition main ::
  "engine \<Rightarrow> string \<Rightarrow> (string \<times> cli_value) list \<Rightarrow> command \<Rightarrow> process
     \<Rightarrow> (py_exception + unit) \<times> process" where
  "main other DATA_DIR kwargs cmd s =
     (let (r, s') =
        (case commands other DATA_DIR kwargs s of
           (Inl e, s1) \<Rightarrow> (Inl e, s1)
         | (Inr obj, s1) \<Rightarrow>
             (case cmd of
                Add kw \<Rightarrow> habit_add other obj kw s1
              | Listing \<Rightarrow> habits_list other obj s1
              | Exec sql \<Rightarrow> exec_sql other obj sql s1))
      in (r, s'\<lparr>transaction := None, memory := empty_store\<rparr>))"

text \<open>
  What click passes for the options of the group, and for the options of \<^verbatim>\<open>add\<close> when
  the command line gives them in the order of their declaration (or gives none: click
  then asks for them in that order). click passes the options of a command in the order
  of the command line, so \<^verbatim>\<open>add\<close> can also receive the four pairs in another order;
  \<open>habit_add\<close> and the model of the statement take them in any.
\<close>

definition group_kwargs :: "cli_value \<Rightarrow> bool \<Rightarrow> bool \<Rightarrow> (string \<times> cli_value) list" where
  "group_kwargs db v d = [(''database'', db), (''verbose'', CBool v), (''debug'', CBool d)]"

definition add_kwargs :: "string \<Rightarrow> string \<Rightarrow> bool \<Rightarrow> bool \<Rightarrow> (string \<times> cli_value) list" where
  "add_kwargs t d r n =
     [(''title'', CStr t), (''description'', CStr d), (''require'', CBool r), (''negative'', CBool n)]"

text \<open>
  A closed example needs an engine for the statements the model does not decide. This
  one refuses them all; the examples below never reach it.
\<close>

definition refuse :: engine where
  "refuse sql db = (Inl (OperationalError ''not modelled''), db)"

text \<open>
  Two process states that differ at most in what concerns logging: the threshold and
  the records written.
\<close>

definition same_but_log :: "process \<Rightarrow> process \<Rightarrow> bool" where
  "same_but_log s s' =
     (dirs s = dirs s' \<and> files s = files s' \<and> memory s = memory s'
      \<and> transaction s = transaction s' \<and> stdout s = stdout s')"

text \<open>
  A value that reaches the statement of \<^verbatim>\<open>add\<close> as the literal it is meant to be: it
  holds no double quote, which would end the literal, and no NUL.
\<close>

definition plain :: "string \<Rightarrow> bool" where
  "plain x = (dq \<notin> set x \<and> nul \<notin> set x)"

text \<open>
  A sequence of \<^verbatim>\<open>add\<close> commands, each a process of its own that starts on the directories
  and files the one before it left; \<open>None\<close> when one of them ends with an exception.
\<close>

fun add_runs ::
  "engine \<Rightarrow> string \<Rightarrow> (string \<times> cli_value) list \<Rightarrow> (string \<times> string \<times> bool \<times> bool) list
     \<Rightarrow> string list \<Rightarrow> (string \<rightharpoonup> store) \<Rightarrow> (string list \<times> (string \<rightharpoonup> store)) option" where
  "add_runs other D opts [] ds fs = Some (ds, fs)"
| "add_runs other D opts ((t, d, r, n) # rest) ds fs =
     (case main other D opts (Add (add_kwargs t d r n)) (start ds fs) of
        (Inl e, s) \<Rightarrow> None
      | (Inr u, s) \<Rightarrow> add_runs other D opts rest (dirs s) (files s))"

section \<open>Properties of the entity model\<close>

lemma short_cases:
  "length vs < 4 \<Longrightarrow>
     vs = [] \<or> (\<exists>a. vs = [a]) \<or> (\<exists>a b. vs = [a, b]) \<or> (\<exists>a b c. vs = [a, b, c])"
  apply (cases vs, simp)
  subgoal for a vs1
    apply (cases vs1, simp)
    subgoal for b vs2
      apply (cases vs2, simp)
      subgoal for c vs3 by (cases vs3) simp_all
      done
    done
  done

lemma long_cases:
  "4 \<le> length vs \<Longrightarrow> \<exists>a b c d rest. vs = a # b # c # d # rest"
  apply (cases vs, simp)
  subgoal for a vs1
    apply (cases vs1, simp)
    subgoal for b vs2
      apply (cases vs2, simp)
      subgoal for c vs3 by (cases vs3) simp_all
      done
    done
  done

lemma from_values_init:
  "Habit_from_values (a # b # c # d # rest) =
     Habit_init [''title'' \<mapsto> a, ''description'' \<mapsto> b, ''required'' \<mapsto> c, ''negative'' \<mapsto> d]"
  by (simp add: Habit_from_values_def from_values_def Habit_fields_def)

lemma validate_four:
  "validate_field [''title'' \<mapsto> a, ''description'' \<mapsto> b, ''required'' \<mapsto> c, ''negative'' \<mapsto> d]
     ''title'' f = (case f a of Inl e \<Rightarrow> Inl (''title'', e) | Inr x \<Rightarrow> Inr x)"
  "validate_field [''title'' \<mapsto> a, ''description'' \<mapsto> b, ''required'' \<mapsto> c, ''negative'' \<mapsto> d]
     ''description'' f = (case f b of Inl e \<Rightarrow> Inl (''description'', e) | Inr x \<Rightarrow> Inr x)"
  "validate_field [''title'' \<mapsto> a, ''description'' \<mapsto> b, ''required'' \<mapsto> c, ''negative'' \<mapsto> d]
     ''required'' g = (case g c of Inl e \<Rightarrow> Inl (''required'', e) | Inr x \<Rightarrow> Inr x)"
  "validate_field [''title'' \<mapsto> a, ''description'' \<mapsto> b, ''required'' \<mapsto> c, ''negative'' \<mapsto> d]
     ''negative'' g = (case g d of Inl e \<Rightarrow> Inl (''negative'', e) | Inr x \<Rightarrow> Inr x)"
  by (simp_all add: validate_field_def)

lemma from_values_ok:
  assumes "str_validator a = Inr t" "str_validator b = Inr e"
    "bool_validator c = Inr r" "bool_validator d = Inr n"
  shows "Habit_from_values (a # b # c # d # rest) =
           Inr \<lparr>title = t, description = e, required = r, negative = n\<rparr>"
  unfolding from_values_init Habit_init_def validate_four using assms by simp

lemma from_values_bad:
  assumes "isl (str_validator a) \<or> isl (str_validator b)
    \<or> isl (bool_validator c) \<or> isl (bool_validator d)"
  shows "\<exists>errs. Habit_from_values (a # b # c # d # rest) = Inl (ValidationError errs)"
proof -
  obtain ra rb rc rd where r: "str_validator a = ra" "str_validator b = rb"
    "bool_validator c = rc" "bool_validator d = rd" by simp
  show ?thesis
    unfolding from_values_init Habit_init_def validate_four r using assms unfolding r
    by (cases ra; cases rb; cases rc; cases rd) (simp_all add: Let_def)
qed

lemma from_values_short:
  assumes "length vs < 4"
  shows "\<exists>errs. Habit_from_values vs = Inl (ValidationError errs)"
proof -
  have missing: "\<exists>errs. Habit_init data = Inl (ValidationError errs)"
    if n: "data ''negative'' = None" for data
  proof -
    obtain t e r where v: "validate_field data ''title'' str_validator = t"
      "validate_field data ''description'' str_validator = e"
      "validate_field data ''required'' bool_validator = r" by simp
    have "validate_field data ''negative'' bool_validator
            = Inl (''negative'', ''value_error.missing'')"
      using n by (simp add: validate_field_def)
    then show ?thesis
      unfolding Habit_init_def v by (cases t; cases e; cases r) (simp_all add: Let_def)
  qed
  from short_cases[OF assms] show ?thesis
    by (auto simp: Habit_from_values_def from_values_def Habit_fields_def intro!: missing)
qed

lemma coercible_first_four:
  "(\<forall>i<4. coercible i ((a # b # c # d # rest) ! i)) \<longleftrightarrow>
     \<not> (isl (str_validator a) \<or> isl (str_validator b)
        \<or> isl (bool_validator c) \<or> isl (bool_validator d))"
proof -
  have "(\<forall>i<4. P i) \<longleftrightarrow> P 0 \<and> P 1 \<and> P 2 \<and> P (3::nat)" for P
  proof
    assume r: "P 0 \<and> P 1 \<and> P 2 \<and> P 3"
    show "\<forall>i<4. P i"
    proof (intro allI impI)
      fix i :: nat assume "i < 4"
      then have "i = 0 \<or> i = 1 \<or> i = 2 \<or> i = 3" by arith
      with r show "P i" by auto
    qed
  qed simp
  then show ?thesis by (simp add: coercible_def numeral_3_eq_3 numeral_2_eq_2)
qed

text \<open>
  C4, as amended. \<^verbatim>\<open>Habit.from_values\<close> fails with pydantic's \<^verbatim>\<open>ValidationError\<close> exactly
  when the sequence is shorter than the four fields or one of its first four values is
  not accepted by the validator of its field. A sequence that is longer than the field
  count is not refused for its length.
\<close>

theorem from_values_fails_iff:
  "(\<exists>errs. Habit_from_values vs = Inl (ValidationError errs)) \<longleftrightarrow>
     (length vs < 4 \<or> (\<exists>i<4. \<not> coercible i (vs ! i)))"
proof (cases "length vs < 4")
  case True
  then show ?thesis using from_values_short by simp
next
  case False
  then obtain a b c d rest where vs: "vs = a # b # c # d # rest"
    using long_cases[of vs] by auto
  have ex: "(\<exists>i<4. \<not> coercible i (vs ! i)) \<longleftrightarrow> \<not> (\<forall>i<4. coercible i (vs ! i))"
    by blast
  show ?thesis
  proof (cases "isl (str_validator a) \<or> isl (str_validator b)
      \<or> isl (bool_validator c) \<or> isl (bool_validator d)")
    case True
    then show ?thesis
      using from_values_bad[OF True, of rest] False
      unfolding ex unfolding vs coercible_first_four by simp
  next
    case ok: False
    then obtain t e r n where "str_validator a = Inr t" "str_validator b = Inr e"
      "bool_validator c = Inr r" "bool_validator d = Inr n"
      by (metis isl_def sum.exhaust_sel)
    from from_values_ok[OF this, of rest] ok show ?thesis
      unfolding ex unfolding vs coercible_first_four by simp
  qed
qed

theorem from_values_fails_iff_witness:
  "\<exists>errs. Habit_from_values [PyStr ''read'', PyStr ''desc'', PyBool True]
     = Inl (ValidationError errs)"
  using from_values_fails_iff[of "[PyStr ''read'', PyStr ''desc'', PyBool True]"] by simp

text \<open>
  C4, as stated, fails on a five-element sequence for the four-field \<^verbatim>\<open>Habit\<close>:
  its length differs from the field count, and a \<^verbatim>\<open>Habit\<close> is produced.
\<close>

theorem from_values_longer_counterexample:
  "Habit_from_values [PyStr ''read'', PyStr ''desc'', PyBool True, PyBool False, PyStr ''extra'']
     = Inr \<lparr>title = ''read'', description = ''desc'', required = True, negative = False\<rparr>"
  by (rule from_values_ok) (simp_all add: str_validator_def bool_validator_def)

text \<open>
  C9, as amended. On a sequence that is longer than the four fields, \<^verbatim>\<open>from_values\<close> does
  what it does on the first four values, whatever the surplus values are; it succeeds
  exactly when these four are accepted by the validators of their fields.
\<close>

theorem from_values_surplus:
  assumes "4 < length vs"
  shows "Habit_from_values vs = Habit_from_values (take 4 vs)
    \<and> ((\<exists>h. Habit_from_values vs = Inr h) \<longleftrightarrow> (\<forall>i<4. coercible i (vs ! i)))"
proof -
  from assms obtain a b c d rest where vs: "vs = a # b # c # d # rest"
    using long_cases[of vs] by auto
  have "Habit_from_values vs = Habit_from_values (take 4 vs)"
    by (simp add: vs from_values_init)
  moreover have "(\<exists>h. Habit_from_values vs = Inr h) \<longleftrightarrow> (\<forall>i<4. coercible i (vs ! i))"
  proof (cases "isl (str_validator a) \<or> isl (str_validator b)
      \<or> isl (bool_validator c) \<or> isl (bool_validator d)")
    case True
    from from_values_bad[OF True, of rest] True show ?thesis
      unfolding vs coercible_first_four by auto
  next
    case ok: False
    then obtain t e r n where "str_validator a = Inr t" "str_validator b = Inr e"
      "bool_validator c = Inr r" "bool_validator d = Inr n"
      by (metis isl_def sum.exhaust_sel)
    from from_values_ok[OF this, of rest] ok show ?thesis
      unfolding vs coercible_first_four by simp
  qed
  ultimately show ?thesis by simp
qed

theorem from_values_surplus_witness:
  "Habit_from_values [PyStr ''run'', PyStr [], PyStr ''True'', PyInt 0, PyNone, PyNone]
     = Habit_from_values [PyStr ''run'', PyStr [], PyStr ''True'', PyInt 0]"
  using from_values_surplus[of "[PyStr ''run'', PyStr [], PyStr ''True'', PyInt 0, PyNone, PyNone]"]
  by simp

text \<open>
  C9, as stated, fails on a sequence of five values whose first is \<^verbatim>\<open>None\<close>: it is
  longer than the field count, and \<^verbatim>\<open>from_values\<close> raises.
\<close>

theorem from_values_surplus_counterexample:
  "Habit_from_values [PyNone, PyStr ''desc'', PyBool True, PyBool False, PyStr ''extra'']
     = Inl (ValidationError [(''title'', ''type_error.none.not_allowed'')])"
  unfolding from_values_init Habit_init_def validate_four
  by (simp add: str_validator_def bool_validator_def errors_of_def)

section \<open>Properties of the store\<close>

subsection \<open>Reading the statement of \<^verbatim>\<open>add\<close>\<close>

lemma dq_body_plain:
  "dq \<notin> set s \<Longrightarrow> take 1 r \<noteq> [dq] \<Longrightarrow> dq_body (s @ dq # r) = Some (s, r)"
proof (induction s)
  case Nil
  then show ?case by (cases r) simp_all
next
  case (Cons c s)
  then have ih: "dq_body (s @ dq # r) = Some (s, r)" and c: "c \<noteq> dq" by auto
  obtain x xs where x: "s @ dq # r = x # xs" by (cases "s @ dq # r") simp_all
  have "dq_body (c # x # xs) = map_option (\<lambda>(s, r). (c # s, r)) (dq_body (x # xs))"
    using c by simp
  then show ?case using ih unfolding x[symmetric] by simp
qed

lemma dq_string_plain:
  "dq \<notin> set s \<Longrightarrow> take 1 r \<noteq> [dq] \<Longrightarrow> dq_string (dq # s @ dq # r) = Some (s, r)"
  by (simp add: dq_string_def dq_body_plain)

lemma expect_prefix: "expect p (p @ s) = Some s"
  by (simp add: expect_def)

lemma parse_expr_plain:
  "dq \<notin> set s \<Longrightarrow> take 1 r \<noteq> [dq] \<Longrightarrow> parse_expr (dq # s @ dq # r) = Some (Quoted s, r)"
  by (simp add: parse_expr_def dq_string_plain)

lemma row_values_next:
  assumes "dq \<notin> set a"
  shows "row_values (Suc k) (dq # a @ dq # '', '' @ x)
           = map_option (\<lambda>(vs, t). (Quoted a # vs, t)) (row_values k x)"
proof -
  have p: "parse_expr (dq # a @ dq # '', '' @ x) = Some (Quoted a, '', '' @ x)"
    by (rule parse_expr_plain[OF assms]) (simp add: dq_def)
  show ?thesis unfolding row_values.simps p by (simp add: expect_def)
qed

lemma row_values_last:
  assumes "dq \<notin> set a"
  shows "row_values (Suc k) (dq # a @ dq # '')'' @ x) = Some ([Quoted a], x)"
proof -
  have p: "parse_expr (dq # a @ dq # '')'' @ x) = Some (Quoted a, '')'' @ x)"
    by (rule parse_expr_plain[OF assms]) (simp add: dq_def)
  show ?thesis unfolding row_values.simps p by (simp add: expect_def)
qed

lemma values_row_plain:
  assumes "dq \<notin> set a" "dq \<notin> set b" "dq \<notin> set c" "dq \<notin> set d"
  shows "values_row (''('' @ dq # a @ dq # '', '' @ dq # b @ dq # '', '' @ dq # c @ dq # '', ''
           @ dq # d @ dq # '')'' @ rest) = Some ([Quoted a, Quoted b, Quoted c, Quoted d], rest)"
proof -
  let ?r = "dq # a @ dq # '', '' @ dq # b @ dq # '', '' @ dq # c @ dq # '', ''
           @ dq # d @ dq # '')'' @ rest"
  have e: "expect ''('' (''('' @ ?r) = Some ?r" by (rule expect_prefix)
  have "\<exists>k. length ?r = Suc (Suc (Suc (Suc k)))"
    by (rule exI[of _ "length ?r - 4"]) simp
  then obtain k where k: "length ?r = Suc (Suc (Suc (Suc k)))" ..
  have "row_values (Suc (Suc (Suc (Suc k)))) ?r
          = Some ([Quoted a, Quoted b, Quoted c, Quoted d], rest)"
    by (simp only: row_values_next[OF assms(1)] row_values_next[OF assms(2)]
        row_values_next[OF assms(3)] row_values_last[OF assms(4)]
        option.map prod.case)
  then show ?thesis unfolding values_row_def e by (simp only: option.case k)
qed

lemma str_bool_plain: "dq \<notin> set (str_bool b)"
  by (simp add: str_bool_def dq_def)

lemma insert_statement_add:
  "insert_statement (add_kwargs t d r n) =
     INSERT_INTO @ ''title, description, require, negative) VALUES ''
       @ ''('' @ dq # t @ dq # '', '' @ dq # d @ dq # '', '' @ dq # str_bool r @ dq # '', ''
       @ dq # str_bool n @ dq # '')'' @ '';''"
  by (simp add: insert_statement_def add_kwargs_def quoted_def str_def INSERT_INTO_def)

lemma column_list_add:
  "column_list (''title, description, require, negative) VALUES '' @ x)
     = Some (COLUMNS, '' VALUES '' @ x)"
  by (simp add: column_list_def expect_def COLUMNS_def)

lemma stored_row_add:
  "stored_row COLUMNS [Quoted t, Quoted d, Quoted (str_bool r), Quoted (str_bool n)]
     = Some [Text t, Text d, Text (str_bool r), Text (str_bool n)]"
  by (simp add: stored_row_def COLUMNS_def numeric_affinity_def text_affinity_def str_bool_def)

lemma parse_insert_add:
  assumes "dq \<notin> set t" "dq \<notin> set d"
  shows "parse_insert (insert_statement (add_kwargs t d r n))
           = Some [[Text t, Text d, Text (str_bool r), Text (str_bool n)]]"
proof -
  let ?row = "''('' @ dq # t @ dq # '', '' @ dq # d @ dq # '', '' @ dq # str_bool r @ dq # '', ''
       @ dq # str_bool n @ dq # '')'' @ '';''"
  have v: "values_row ?row
             = Some ([Quoted t, Quoted d, Quoted (str_bool r), Quoted (str_bool n)], '';'')"
    by (rule values_row_plain) (simp_all add: assms str_bool_plain)
  obtain k where k: "length ?row = Suc k" by simp
  have f: "nothing_follows []" by (simp add: nothing_follows_def)
  have 1: "expect INSERT_INTO (insert_statement (add_kwargs t d r n))
             = Some (''title, description, require, negative) VALUES '' @ ?row)"
    unfolding insert_statement_add by (rule expect_prefix)
  have 2: "distinct COLUMNS" "list_all (\<lambda>c. c \<in> set COLUMNS) COLUMNS"
    by (simp_all add: COLUMNS_def)
  have 3: "expect '' VALUES '' ('' VALUES '' @ ?row) = Some ?row" by (rule expect_prefix)
  have 4: "values_rows (length ?row) ?row
          = Some [[Quoted t, Quoted d, Quoted (str_bool r), Quoted (str_bool n)]]"
    unfolding k values_rows.simps v by (simp add: expect_def f)
  have 5: "those (map (stored_row COLUMNS)
                    [[Quoted t, Quoted d, Quoted (str_bool r), Quoted (str_bool n)]])
             = Some [[Text t, Text d, Text (str_bool r), Text (str_bool n)]]"
    by (simp add: stored_row_add)
  show ?thesis
    unfolding parse_insert_def 1
    by (simp only: Option.bind.simps column_list_add prod.case 2 simp_thms if_True 3 4 5)
qed

lemma statement_of_add:
  assumes "plain t" "plain d"
  shows "statement_of (insert_statement (add_kwargs t d r n))
           = Insert [[Text t, Text d, Text (str_bool r), Text (str_bool n)]]"
proof -
  have q: "dq \<notin> set t" "dq \<notin> set d" and z: "nul \<notin> set t" "nul \<notin> set d"
    using assms by (simp_all add: plain_def)
  have "insert_statement (add_kwargs t d r n) \<noteq> SELECT_TABLES"
    "insert_statement (add_kwargs t d r n) \<noteq> SELECT_HABITS"
    "insert_statement (add_kwargs t d r n) \<noteq> COUNT_HABITS"
    by (simp_all add: insert_statement_add INSERT_INTO_def SELECT_TABLES_def SELECT_HABITS_def
        COUNT_HABITS_def)
  moreover have "nul \<notin> set (insert_statement (add_kwargs t d r n))"
    using z by (simp add: insert_statement_add INSERT_INTO_def str_bool_def nul_def dq_def)
  ultimately show ?thesis
    by (simp add: statement_of_def parse_insert_add[OF q])
qed

lemma is_dml_insert: "is_dml (insert_statement kwargs)"
  by (simp add: is_dml_def insert_statement_def lower_def lower_char_def)

subsection \<open>The process state\<close>

lemma has_table_empty [simp]: "tables db = [] \<Longrightarrow> \<not> has_table name db"
  by (simp add: has_table_def)

lemma has_table_rows [simp]: "has_table name (db\<lparr>habits := rows\<rparr>) = has_table name db"
  by (simp add: has_table_def)

lemma has_table_examples [simp]:
  "has_table ''habits'' \<lparr>tables = [''habits''], habits = rows\<rparr>"
  "\<not> has_table ''habits'' \<lparr>tables = [''notes''], habits = rows\<rparr>"
  "\<not> has_table ''habit_records'' \<lparr>tables = [''habits''], habits = rows\<rparr>"
  by (simp_all add: has_table_def upper_def upper_char_def)

lemma log_fields [simp]:
  "dirs (log l m a s) = dirs s" "files (log l m a s) = files s"
  "memory (log l m a s) = memory s"
  "transaction (log l m a s) = transaction s" "stdout (log l m a s) = stdout s"
  "level (log l m a s) = level s"
  by (simp_all add: log_def)

lemma is_dir_dirs: "dirs s' = dirs s \<Longrightarrow> is_dir p s' = is_dir p s"
  by (simp add: is_dir_def)

lemma database_file_dirs: "dirs s' = dirs s \<Longrightarrow> database_file p s' = database_file p s"
  by (simp add: database_file_def is_dir_def)

lemma stored_files: "files s' = files s \<Longrightarrow> dirs s' = dirs s \<Longrightarrow> stored con s' = stored con s"
  by (simp add: stored_def is_dir_def)

lemma stored_transaction [simp]: "stored con (s\<lparr>transaction := x\<rparr>) = stored con s"
  by (rule stored_files) simp_all

lemma stored_log [simp]: "stored con (log l m a s) = stored con s"
  by (rule stored_files) simp_all

lemma database_file_log [simp]: "database_file p (log l m a s) = database_file p s"
  by (rule database_file_dirs) simp

lemma committed_log [simp]: "committed con (log l m a s) = committed con s"
  by (simp add: committed_def)

lemma current_log [simp]: "current con (log l m a s) = current con s"
  by (simp add: current_def split: option.splits)

lemma committed_file: "\<not> temporary con \<Longrightarrow> committed con s = stored con s"
  by (simp add: committed_def)

lemma save_committed [simp]: "save con (committed con s) s = s"
  by (simp add: save_def committed_def)

lemma save_fields [simp]:
  "dirs (save con db s) = dirs s" "transaction (save con db s) = transaction s"
  "stdout (save con db s) = stdout s" "level (save con db s) = level s"
  "stderr (save con db s) = stderr s"
  by (simp_all add: save_def)

lemma committed_save:
  "temporary con \<or> database_file con s \<Longrightarrow> committed con (save con db s) = db"
  by (auto simp: save_def committed_def stored_def is_dir_def database_file_def)

lemma stored_save: "database_file con s \<Longrightarrow> stored con (save con db s) = db"
  using committed_save[of con s db] by (simp add: committed_file database_file_def)

lemma current_idle: "transaction s = None \<Longrightarrow> current con s = committed con s"
  by (simp add: current_def)

lemma statement_queries:
  "statement_of SELECT_TABLES = Select_tables"
  "statement_of SELECT_HABITS = Select_habits"
  "statement_of COUNT_HABITS = Count_habits"
  by code_simp+

lemma is_dml_queries:
  "\<not> is_dml SELECT_TABLES" "\<not> is_dml SELECT_HABITS" "\<not> is_dml COUNT_HABITS"
  by code_simp+

lemma select_tables:
  "transaction s = None \<Longrightarrow>
   cursor_execute other con SELECT_TABLES s
     = (Inr (map (\<lambda>n. [Text ''table'', Text n]) (tables (committed con s))), s)"
  by (simp add: cursor_execute_def is_dml_queries sqlite_def statement_queries current_idle)

lemma script_statements:
  "map (\<lambda>stmt. (list_all (\<lambda>c. c \<in> set whitespace) stmt, statement_of stmt))
     (split_script [] CREATE_TABLES)
   = [(False, Create_table ''habits'' None),
      (False, Create_table ''habit_records'' (Some near_paren)),
      (False, Create_table ''habit_names'' (Some near_paren)), (True, Unknown)]"
  by code_simp

lemma executescript_create_tables:
  assumes "transaction s = None" "tables (committed con s) = []"
    "temporary con \<or> database_file con s"
  shows "executescript other con CREATE_TABLES s
    = (Inl (OperationalError near_paren), save con \<lparr>tables = [''habits''], habits = []\<rparr> s)"
proof -
  let ?db = "\<lparr>tables = [''habits''], habits = []\<rparr>"
  from script_statements obtain a b rest where split: "split_script [] CREATE_TABLES = a # b # rest"
    and a: "\<not> list_all (\<lambda>c. c \<in> set whitespace) a" "statement_of a = Create_table ''habits'' None"
    and b: "\<not> list_all (\<lambda>c. c \<in> set whitespace) b" "statement_of b = Create_table ''habit_records'' (Some near_paren)"
    by (auto simp: map_eq_Cons_conv)
  have c: "commit con s = s" using assms(1) by (simp add: commit_def)
  have 1: "sqlite other a (committed con s) = (Inr [], ?db)"
    using assms(2) by (simp add: sqlite_def a create_table_def upper_def upper_char_def)
  have 2: "sqlite other b ?db = (Inl (OperationalError near_paren), ?db)"
    by (simp add: sqlite_def b create_table_def)
  have 3: "committed con (save con ?db s) = ?db" by (rule committed_save[OF assms(3)])
  have 4: "save con ?db (save con ?db s) = save con ?db s"
    using save_committed[of con "save con ?db s"] unfolding 3 .
  show ?thesis
    unfolding executescript_def c split by (simp add: a b 1 2 3 4)
qed

lemma create_tables_fails:
  assumes "transaction s = None" "tables (committed con s) = []"
    "temporary con \<or> database_file con s"
  shows "create_tables other con s
    = (Inl (OperationalError near_paren),
       save con \<lparr>tables = [''habits''], habits = []\<rparr> (log INFO ''Creating tables.'' [] s))"
proof -
  let ?l = "log INFO ''Creating tables.'' [] s"
  have "temporary con \<or> database_file con ?l"
    using assms(3) by simp
  with assms(1,2) have "executescript other con CREATE_TABLES ?l
    = (Inl (OperationalError near_paren), save con \<lparr>tables = [''habits''], habits = []\<rparr> ?l)"
    by (intro executescript_create_tables) simp_all
  then show ?thesis by (simp add: create_tables_def Let_def)
qed

lemma check_database_cases:
  assumes "transaction s = None" "database_file path s"
  shows "check_database other path s =
     (let s1 = log INFO ''Checking database file '%s'.'' [Str path] s
      in if tables (stored path s) = []
         then (Inl (OperationalError near_paren),
               save path \<lparr>tables = [''habits''], habits = []\<rparr> (log INFO ''Creating tables.'' [] s1))
         else (Inr path, s1))"
proof -
  let ?l = "log INFO ''Checking database file '%s'.'' [Str path] s"
  have f: "\<not> temporary path" "nul \<notin> set path"
    using assms(2) by (simp_all add: database_file_def)
  have c: "connect path ?l = (Inr path, ?l)"
    using assms(2) f by (simp add: connect_def)
  have t: "transaction ?l = None" using assms(1) by simp
  have st: "committed path ?l = stored path s" using f(1) by (simp add: committed_file)
  have d: "temporary path \<or> database_file path ?l" using assms(2) by simp
  show ?thesis
  proof (cases "tables (stored path s) = []")
    case True
    then have "tables (committed path ?l) = []" unfolding st .
    from create_tables_fails[OF t this d, of other] True show ?thesis
      unfolding check_database_def Let_def c
      by (simp add: select_tables[OF t] committed_file[OF f(1)])
  next
    case False
    then show ?thesis
      unfolding check_database_def Let_def c
      by (simp add: select_tables[OF t] committed_file[OF f(1)])
  qed
qed

text \<open>
  On the temporary database of \<^verbatim>\<open>:memory:\<close> or of the empty path, every run of
  \<^verbatim>\<open>_check_database\<close> meets a new, empty database and stops at the second statement of
  the script.
\<close>

lemma check_database_temporary:
  assumes "transaction s = None" "temporary path"
  shows "fst (check_database other path s) = Inl (OperationalError near_paren)"
proof -
  let ?l = "(log INFO ''Checking database file '%s'.'' [Str path] s)\<lparr>memory := empty_store\<rparr>"
  have "nul \<notin> set path" using assms(2) by (auto simp: temporary_def nul_def)
  then have c: "connect path (log INFO ''Checking database file '%s'.'' [Str path] s) = (Inr path, ?l)"
    using assms(2) by (simp add: connect_def)
  have t: "transaction ?l = None" using assms(1) by simp
  have m: "committed path ?l = empty_store" using assms(2) by (simp add: committed_def)
  have e: "tables (committed path ?l) = []" unfolding m by (simp add: empty_store_def)
  have sel: "cursor_execute other path SELECT_TABLES ?l = (Inr [], ?l)"
    unfolding select_tables[OF t] e by simp
  note ct = create_tables_fails[OF t e disjI1[OF assms(2)], of other]
  show ?thesis
    unfolding check_database_def Let_def c by (simp add: sel ct)
qed

lemma log_start [simp]: "log INFO msg args (start ds fs) = start ds fs"
  by (simp add: log_def start_def INFO_def WARNING_def)

lemma start_fields [simp]:
  "dirs (start ds fs) = ds" "files (start ds fs) = fs" "transaction (start ds fs) = None"
  "stdout (start ds fs) = []" "stderr (start ds fs) = []" "memory (start ds fs) = empty_store"
  by (simp_all add: start_def)

lemma canonical_here: "canonical [] = canonical ''.''"
  by (simp add: canonical_def walk_def)

lemma is_dir_dirname:
  assumes "p \<in> set ([] # ''/'' # dirs s)"
  shows "is_dir p s"
proof -
  from assms have "canonical p \<in> canonical ` set ([] # ''/'' # dirs s)" by (rule imageI)
  then show ?thesis by (auto simp: is_dir_def canonical_here)
qed

lemma database_file_stored:
  assumes "dirname path \<in> set ([] # ''/'' # dirs s)" "tables (stored path s) \<noteq> []"
  shows "database_file path s"
proof -
  have "\<not> temporary path \<and> nul \<notin> set path \<and> \<not> is_dir path s"
    using assms(2) by (auto simp: stored_def empty_store_def split: if_splits)
  then show ?thesis using is_dir_dirname[OF assms(1)] by (simp add: database_file_def)
qed

section \<open>Schema initialization\<close>

text \<open>
  C5. Take a path that \<^verbatim>\<open>sqlite3.connect\<close> opens as a database file (not the temporary
  database of \<^verbatim>\<open>:memory:\<close> or of the empty path, and not a directory). Whatever a first
  run of \<^verbatim>\<open>_check_database\<close> on it did (on a file without tables it creates \<^verbatim>\<open>habits\<close> and
  then stops at the second statement of the script), a second run, in a new process on
  the files the first one left, returns the connection without an error and changes
  nothing: neither the catalog nor anything else of the process state.
\<close>

theorem check_database_twice:
  assumes "transaction s = None" and "database_file path s"
  shows "let s1 = snd (check_database other path s);
             again = start (dirs s1) (files s1)
         in check_database other path again = (Inr path, again)"
proof -
  define s1 where "s1 = snd (check_database other path s)"
  define again where "again = start (dirs s1) (files s1)"
  have d: "dirs s1 = dirs s"
    unfolding s1_def check_database_cases[OF assms] by (simp add: Let_def)
  have t: "tables (stored path s1) \<noteq> []"
  proof (cases "tables (stored path s) = []")
    case True
    have "database_file path (log INFO ''Creating tables.'' []
            (log INFO ''Checking database file '%s'.'' [Str path] s))"
      using assms(2) by simp
    from stored_save[OF this] True show ?thesis
      unfolding s1_def check_database_cases[OF assms] by (simp add: Let_def)
  next
    case False
    then show ?thesis
      unfolding s1_def check_database_cases[OF assms] by (simp add: Let_def)
  qed
  have "stored path again = stored path s1"
    by (rule stored_files) (simp_all add: again_def)
  with t have "tables (stored path again) \<noteq> []" by simp
  moreover have "transaction again = None" by (simp add: again_def)
  moreover have "database_file path again"
    using assms(2) database_file_dirs[of again s path] d by (simp add: again_def)
  ultimately have "check_database other path again = (Inr path, again)"
    by (simp add: check_database_cases Let_def) (simp add: again_def)
  then show ?thesis by (simp add: s1_def again_def Let_def)
qed

theorem check_database_twice_witness:
  "transaction (start [] Map.empty) = None
   \<and> database_file ''habits.db'' (start [] Map.empty)
   \<and> files (snd (check_database refuse ''habits.db'' (start [] Map.empty)))
      = [''habits.db'' \<mapsto> \<lparr>tables = [''habits''], habits = []\<rparr>]
   \<and> check_database refuse ''habits.db''
        (start [] [''habits.db'' \<mapsto> \<lparr>tables = [''habits''], habits = []\<rparr>])
      = (Inr ''habits.db'', start [] [''habits.db'' \<mapsto> \<lparr>tables = [''habits''], habits = []\<rparr>])"
proof -
  have h: "transaction (start [] Map.empty) = None"
    "database_file ''habits.db'' (start [] Map.empty)"
    by code_simp+
  have n: "\<not> temporary ''habits.db''"
    using h(2) by (simp add: database_file_def)
  have e: "stored ''habits.db'' (start [] Map.empty) = empty_store"
    by (simp add: stored_def)
  have f: "files (snd (check_database refuse ''habits.db'' (start [] Map.empty)))
    = [''habits.db'' \<mapsto> \<lparr>tables = [''habits''], habits = []\<rparr>]"
    unfolding check_database_cases[OF h] using n
    by (simp add: Let_def save_def e) (simp add: empty_store_def)
  have "dirs (snd (check_database refuse ''habits.db'' (start [] Map.empty))) = []"
    unfolding check_database_cases[OF h] by (simp add: Let_def)
  with f show ?thesis
    using check_database_twice[OF h, of refuse] h by (simp add: Let_def)
qed

text \<open>
  C3, as amended. On a database file that already holds at least one table, whichever
  it is, \<^verbatim>\<open>_check_database\<close> returns the connection and leaves the file as it is: the
  store then contains the relations it held before, not necessarily \<^verbatim>\<open>habits\<close>,
  \<^verbatim>\<open>habit_records\<close> and \<^verbatim>\<open>habit_names\<close>. The creation script is run on a file without
  tables only.
\<close>

theorem check_database_initialized:
  assumes "transaction s = None" and "dirname path \<in> set ([] # ''/'' # dirs s)"
    and "tables (stored path s) \<noteq> []"
  shows "\<exists>s'. check_database other path s = (Inr path, s')
           \<and> files s' = files s \<and> stored path s' = stored path s"
  using assms(3)
  unfolding check_database_cases[OF assms(1) database_file_stored[OF assms(2,3)]]
  by (simp add: Let_def)

theorem check_database_initialized_witness:
  "transaction (start [] [''notes.db'' \<mapsto> \<lparr>tables = [''notes''], habits = []\<rparr>]) = None
   \<and> dirname ''notes.db''
       \<in> set ([] # ''/'' # dirs (start [] [''notes.db'' \<mapsto> \<lparr>tables = [''notes''], habits = []\<rparr>]))
   \<and> tables (stored ''notes.db'' (start [] [''notes.db'' \<mapsto> \<lparr>tables = [''notes''], habits = []\<rparr>]))
       \<noteq> []
   \<and> (\<exists>s'. check_database refuse ''notes.db''
               (start [] [''notes.db'' \<mapsto> \<lparr>tables = [''notes''], habits = []\<rparr>]) = (Inr ''notes.db'', s')
          \<and> stored ''notes.db'' s' = \<lparr>tables = [''notes''], habits = []\<rparr>)"
proof -
  let ?s = "start [] [''notes.db'' \<mapsto> \<lparr>tables = [''notes''], habits = []\<rparr>]"
  have st: "stored ''notes.db'' ?s = \<lparr>tables = [''notes''], habits = []\<rparr>"
    by code_simp
  have h: "transaction ?s = None" "dirname ''notes.db'' \<in> set ([] # ''/'' # dirs ?s)"
    "tables (stored ''notes.db'' ?s) \<noteq> []"
    unfolding st by (simp_all add: dirname_def)
  with check_database_initialized[OF h, of refuse] st show ?thesis by auto
qed

text \<open>
  C3, as stated, fails on a database file that holds one table of another name:
  \<^verbatim>\<open>_check_database\<close> returns normally, and the store does not contain the three
  relations.
\<close>

theorem check_database_counterexample:
  "fst (check_database refuse ''notes.db''
          (start [] [''notes.db'' \<mapsto> \<lparr>tables = [''notes''], habits = []\<rparr>])) = Inr ''notes.db''
   \<and> tables (stored ''notes.db''
        (snd (check_database refuse ''notes.db''
               (start [] [''notes.db'' \<mapsto> \<lparr>tables = [''notes''], habits = []\<rparr>])))) = [''notes'']
   \<and> set [''notes''] \<noteq> set [''habits'', ''habit_records'', ''habit_names'']"
  by code_simp

section \<open>Runs of the program\<close>

lemma config_fields [simp]:
  "dirs (logging l s) = dirs s" "files (logging l s) = files s"
  "memory (logging l s) = memory s"
  "transaction (logging l s) = transaction s" "stdout (logging l s) = stdout s"
  by (simp_all add: logging_def)

lemma stored_config [simp]: "stored con (logging l s) = stored con s"
  by (rule stored_files) simp_all

lemma database_file_config [simp]: "database_file p (logging l s) = database_file p s"
  by (rule database_file_dirs) simp

lemma item_of_group [simp]:
  "item_of (group_kwargs db v g) ''database'' = db"
  "item_of (group_kwargs db v g) ''verbose'' = CBool v"
  "item_of (group_kwargs db v g) ''debug'' = CBool g"
  by (simp_all add: item_of_def group_kwargs_def)

lemma commands_given:
  assumes "transaction s = None" "database_file path s" "tables (stored path s) \<noteq> []"
  shows "\<exists>obj s'. commands other D (group_kwargs (CStr path) v g) s = (Inr obj, s')
     \<and> connection obj = path \<and> files s' = files s \<and> dirs s' = dirs s
     \<and> transaction s' = None \<and> stdout s' = stdout s"
proof -
  define s1 where "s1 = (if truthy (CBool v) \<or> truthy (CBool g)
       then log INFO (''kwargs: '%s'' @ [sq]) [Kwargs (group_kwargs (CStr path) v g)]
              (logging (if truthy (CBool g) then DEBUG else INFO) s)
       else s)"
  have s1: "transaction s1 = None" "database_file path s1"
    "tables (stored path s1) \<noteq> []" "files s1 = files s" "dirs s1 = dirs s" "stdout s1 = stdout s"
    using assms by (simp_all add: s1_def)
  have "path \<noteq> []" using assms(2) by (auto simp: database_file_def temporary_def)
  then have "commands other D (group_kwargs (CStr path) v g) s =
     (case check_database other path s1 of
        (Inl e, s2) \<Rightarrow> (Inl e, s2)
      | (Inr con, s2) \<Rightarrow>
          (Inr (HabitsTrackerSettings_init D (filter_kwargs (group_kwargs (CStr path) v g)) con), s2))"
    by (simp add: commands_def Let_def s1_def truthy_def str_def)
  then show ?thesis
    using s1 by (simp add: check_database_cases[OF s1(1,2)] Let_def HabitsTrackerSettings_init_def)
qed

subsection \<open>The verbosity flags\<close>

lemma same_refl [simp]: "same_but_log s s"
  by (simp add: same_but_log_def)

lemma same_log: "same_but_log s s' \<Longrightarrow> same_but_log (log l m a s) (log l' m' a' s')"
  by (simp add: same_but_log_def)

lemma same_log_left: "same_but_log s s' \<Longrightarrow> same_but_log (log l m a s) s'"
  by (simp add: same_but_log_def)

lemma same_log_right: "same_but_log s s' \<Longrightarrow> same_but_log s (log l m a s')"
  by (simp add: same_but_log_def)

lemma same_config: "same_but_log s s' \<Longrightarrow> same_but_log (logging l s) s'"
  "same_but_log s s' \<Longrightarrow> same_but_log s (logging l s')"
  by (simp_all add: same_but_log_def logging_def)

lemma same_stored: "same_but_log s s' \<Longrightarrow> stored con s = stored con s'"
  by (simp add: same_but_log_def stored_def is_dir_def)

lemma same_committed: "same_but_log s s' \<Longrightarrow> committed con s = committed con s'"
  using same_stored[of s s' con] by (simp add: committed_def same_but_log_def)

lemma same_current: "same_but_log s s' \<Longrightarrow> current con s = current con s'"
  using same_committed[of s s' con] by (simp add: same_but_log_def current_def split: option.splits)

lemma same_save: "same_but_log s s' \<Longrightarrow> same_but_log (save con db s) (save con db s')"
  using same_stored[of s s' con] by (simp add: same_but_log_def save_def)

lemma same_begin:
  "same_but_log s s' \<Longrightarrow>
     same_but_log (if c \<and> transaction s = None then s\<lparr>transaction := Some (committed con s)\<rparr> else s)
       (if c \<and> transaction s' = None then s'\<lparr>transaction := Some (committed con s')\<rparr> else s')"
  using same_committed[of s s' con] by (simp add: same_but_log_def)

lemma same_end:
  "same_but_log s s' \<Longrightarrow>
     same_but_log (case transaction s of None \<Rightarrow> save con db s | Some x \<Rightarrow> s\<lparr>transaction := Some db\<rparr>)
       (case transaction s' of None \<Rightarrow> save con db s' | Some x \<Rightarrow> s'\<lparr>transaction := Some db\<rparr>)"
  using same_save[of s s' con db] by (auto simp: same_but_log_def split: option.splits)

lemma same_commit: "same_but_log s s' \<Longrightarrow> same_but_log (commit con s) (commit con s')"
proof -
  assume a: "same_but_log s s'"
  have "same_but_log ((save con db s)\<lparr>transaction := None\<rparr>) ((save con db s')\<lparr>transaction := None\<rparr>)" for db
    using same_save[OF a, of con db] by (simp add: same_but_log_def)
  then show ?thesis using a by (auto simp: commit_def same_but_log_def split: option.splits)
qed

lemma same_check_dir: "same_but_log s s' \<Longrightarrow> same_but_log (check_dir d s) (check_dir d s')"
  by (simp add: same_but_log_def check_dir_def Let_def exists_path_def makedirs_def is_dir_def)

lemma same_connect:
  "same_but_log s s' \<Longrightarrow>
     fst (connect p s) = fst (connect p s')
     \<and> same_but_log (snd (connect p s)) (snd (connect p s'))"
  by (simp add: same_but_log_def connect_def database_file_def is_dir_def)

lemma same_cursor_execute:
  assumes "same_but_log s s'"
  shows "fst (cursor_execute other con sql s) = fst (cursor_execute other con sql s')
     \<and> same_but_log (snd (cursor_execute other con sql s)) (snd (cursor_execute other con sql s'))"
proof -
  let ?b = "\<lambda>s. if is_dml sql \<and> transaction s = None
                then s\<lparr>transaction := Some (committed con s)\<rparr> else s"
  have b: "same_but_log (?b s) (?b s')" by (rule same_begin[OF assms])
  have c: "current con (?b s) = current con (?b s')" by (rule same_current[OF b])
  obtain r db where q: "sqlite other sql (current con (?b s')) = (r, db)" by fastforce
  have e: "cursor_execute other con sql t
       = (fst (sqlite other sql (current con (?b t))),
          case transaction (?b t) of
            None \<Rightarrow> save con (snd (sqlite other sql (current con (?b t)))) (?b t)
          | Some x \<Rightarrow> (?b t)\<lparr>transaction := Some (snd (sqlite other sql (current con (?b t))))\<rparr>)"
    for t
    by (simp add: cursor_execute_def Let_def case_prod_beta)
  from same_end[OF b, of con db] show ?thesis
    unfolding e c q fst_conv snd_conv by (rule conjI[OF refl])
qed

lemma same_run_statements:
  "same_but_log s s' \<Longrightarrow>
     fst (run_statements other con stmts s) = fst (run_statements other con stmts s')
     \<and> same_but_log (snd (run_statements other con stmts s)) (snd (run_statements other con stmts s'))"
proof (induction stmts arbitrary: s s')
  case Nil
  then show ?case by simp
next
  case (Cons stmt stmts)
  show ?case
  proof (cases "list_all (\<lambda>c. c \<in> set whitespace) stmt")
    case True
    then show ?thesis using Cons by simp
  next
    case False
    have st: "committed con s = committed con s'" by (rule same_committed[OF Cons.prems])
    obtain r db where q: "sqlite other stmt (committed con s') = (r, db)" by fastforce
    note sv = same_save[OF Cons.prems, of con db]
    show ?thesis
    proof (cases r)
      case (Inl e)
      then show ?thesis using False st q sv by simp
    next
      case (Inr rows)
      from Cons.IH[OF sv] show ?thesis
        using False st q Inr by simp
    qed
  qed
qed

lemma same_executescript:
  "same_but_log s s' \<Longrightarrow>
     fst (executescript other con script s) = fst (executescript other con script s')
     \<and> same_but_log (snd (executescript other con script s)) (snd (executescript other con script s'))"
  unfolding executescript_def by (rule same_run_statements) (rule same_commit)

lemma same_create_tables:
  assumes "same_but_log s s'"
  shows "fst (create_tables other con s) = fst (create_tables other con s')
     \<and> same_but_log (snd (create_tables other con s)) (snd (create_tables other con s'))"
proof -
  let ?l = "log INFO ''Creating tables.'' []"
  have l: "same_but_log (?l s) (?l s')" by (rule same_log[OF assms])
  note e = same_executescript[OF l, of other con CREATE_TABLES]
  obtain r t where x: "executescript other con CREATE_TABLES (?l s) = (r, t)" by fastforce
  obtain r' t' where x': "executescript other con CREATE_TABLES (?l s') = (r', t')" by fastforce
  from e have "r = r'" "same_but_log t t'" unfolding x x' by simp_all
  then show ?thesis
    unfolding create_tables_def Let_def x x'
    by (cases r') (simp_all add: same_commit)
qed

lemma same_check_database:
  assumes "same_but_log s s'"
  shows "fst (check_database other path s) = fst (check_database other path s')
     \<and> same_but_log (snd (check_database other path s)) (snd (check_database other path s'))"
proof -
  let ?l = "log INFO ''Checking database file '%s'.'' [Str path]"
  have l: "same_but_log (?l s) (?l s')" by (rule same_log[OF assms])
  note k = same_connect[OF l, of path]
  obtain a b where y: "connect path (?l s) = (a, b)" by fastforce
  obtain a' b' where y': "connect path (?l s') = (a', b')" by fastforce
  from k have ab: "a = a'" "same_but_log b b'" unfolding y y' by simp_all
  show ?thesis
  proof (cases a')
    case (Inl e)
    then show ?thesis unfolding check_database_def Let_def y y' using ab by simp
  next
    case (Inr con)
    note e = same_cursor_execute[OF ab(2), of other con SELECT_TABLES]
    obtain r t where x: "cursor_execute other con SELECT_TABLES b = (r, t)" by fastforce
    obtain r' t' where x': "cursor_execute other con SELECT_TABLES b' = (r', t')" by fastforce
    from e have rt: "r = r'" "same_but_log t t'" unfolding x x' by simp_all
    note k = same_create_tables[OF rt(2), of other con]
    obtain q u where z: "create_tables other con t = (q, u)" by fastforce
    obtain q' u' where z': "create_tables other con t' = (q', u')" by fastforce
    from k have qu: "q = q'" "same_but_log u u'" unfolding z z' by simp_all
    show ?thesis
      unfolding check_database_def Let_def y y' using ab Inr rt qu
      by (cases r'; cases q') (simp_all add: x x' z z')
  qed
qed

lemma same_commands:
  assumes "same_but_log s s'"
  shows "map_sum id connection (fst (commands other D (group_kwargs db v g) s))
       = map_sum id connection (fst (commands other D (group_kwargs db v' g') s'))
     \<and> same_but_log (snd (commands other D (group_kwargs db v g) s))
         (snd (commands other D (group_kwargs db v' g') s'))"
proof -
  define l where "l = (\<lambda>v g s. if truthy (CBool v) \<or> truthy (CBool g)
       then log INFO (''kwargs: '%s'' @ [sq]) [Kwargs (group_kwargs db v g)]
              (logging (if truthy (CBool g) then DEBUG else INFO) s)
       else s)"
  have l: "same_but_log (l v g s) (l v' g' s')"
    unfolding l_def using assms by (auto intro!: same_log_left same_log_right same_log same_config)
  define c where "c = (\<lambda>s. if \<not> truthy db
       then check_database other (DATABASE_FILE_PATH D) (check_dir D s)
       else check_database other (str db) s)"
  have c: "fst (c (l v g s)) = fst (c (l v' g' s')) \<and> same_but_log (snd (c (l v g s))) (snd (c (l v' g' s')))"
    unfolding c_def using same_check_database[OF l] same_check_database[OF same_check_dir[OF l]]
    by simp
  obtain r t where x: "c (l v g s) = (r, t)" by fastforce
  obtain r' t' where x': "c (l v' g' s') = (r', t')" by fastforce
  from c have rt: "r = r'" "same_but_log t t'" unfolding x x' by simp_all
  have eq: "commands other D (group_kwargs db v g) s
      = (case c (l v g s) of (Inl e, s2) \<Rightarrow> (Inl e, s2)
         | (Inr con, s2) \<Rightarrow> (Inr (HabitsTrackerSettings_init D (filter_kwargs (group_kwargs db v g)) con), s2))"
    for v g s
    by (simp add: commands_def Let_def c_def l_def)
  show ?thesis
    unfolding eq x x' using rt by (cases r') (simp_all add: HabitsTrackerSettings_init_def)
qed

lemma same_habit_add:
  assumes "same_but_log s s'" "connection obj = connection obj'"
  shows "fst (habit_add other obj kw s) = fst (habit_add other obj' kw s')
     \<and> same_but_log (snd (habit_add other obj kw s)) (snd (habit_add other obj' kw s'))"
proof -
  let ?l = "\<lambda>s. log DEBUG (insert_statement kw) []
                 (log DEBUG (''Adding habit: '%s'' @ [sq]) [Kwargs kw] s)"
  have l: "same_but_log (?l s) (?l s')" by (intro same_log assms)
  note e = same_cursor_execute[OF l, of other "connection obj'" "insert_statement kw"]
  obtain r t where x: "cursor_execute other (connection obj') (insert_statement kw) (?l s) = (r, t)"
    by fastforce
  obtain r' t' where x': "cursor_execute other (connection obj') (insert_statement kw) (?l s') = (r', t')"
    by fastforce
  from e have "r = r'" "same_but_log t t'" unfolding x x' by simp_all
  then show ?thesis
    unfolding habit_add_def Let_def assms(2) x x' by (cases r') (simp_all add: same_commit)
qed

lemma same_habits_list:
  assumes "same_but_log s s'" "connection obj = connection obj'"
  shows "fst (habits_list other obj s) = fst (habits_list other obj' s')
     \<and> same_but_log (snd (habits_list other obj s)) (snd (habits_list other obj' s'))"
proof -
  note e = same_cursor_execute[OF assms(1), of other "connection obj'" SELECT_HABITS]
  obtain r t where x: "cursor_execute other (connection obj') SELECT_HABITS s = (r, t)"
    by fastforce
  obtain r' t' where x': "cursor_execute other (connection obj') SELECT_HABITS s' = (r', t')"
    by fastforce
  from e have "r = r'" "same_but_log t t'" unfolding x x' by simp_all
  then show ?thesis
    unfolding habits_list_def Let_def assms(2) x x'
    by (cases r') (auto simp: same_but_log_def split: sum.splits)
qed

lemma same_exec_sql:
  assumes "same_but_log s s'" "connection obj = connection obj'"
  shows "fst (exec_sql other obj command s) = fst (exec_sql other obj' command s')
     \<and> same_but_log (snd (exec_sql other obj command s)) (snd (exec_sql other obj' command s'))"
proof -
  note e = same_cursor_execute[OF assms(1), of other "connection obj'" command]
  obtain r t where x: "cursor_execute other (connection obj') command s = (r, t)"
    by fastforce
  obtain r' t' where x': "cursor_execute other (connection obj') command s' = (r', t')"
    by fastforce
  from e have "r = r'" "same_but_log t t'" unfolding x x' by simp_all
  then show ?thesis
    unfolding exec_sql_def Let_def assms(2) x x'
    by (cases r') (auto simp: same_but_log_def)
qed

lemma same_main:
  assumes "same_but_log s s'"
  shows "fst (main other D (group_kwargs db v g) cmd s) = fst (main other D (group_kwargs db v' g') cmd s')
     \<and> same_but_log (snd (main other D (group_kwargs db v g) cmd s))
         (snd (main other D (group_kwargs db v' g') cmd s'))"
proof -
  note c = same_commands[OF assms, of other D db v g v' g']
  obtain r t where x: "commands other D (group_kwargs db v g) s = (r, t)" by fastforce
  obtain r' t' where x': "commands other D (group_kwargs db v' g') s' = (r', t')" by fastforce
  from c have rt: "map_sum id connection r = map_sum id connection r'" "same_but_log t t'"
    unfolding x x' by simp_all
  define sub where "sub = (\<lambda>obj s. case cmd of
                Add kw \<Rightarrow> habit_add other obj kw s
              | Listing \<Rightarrow> habits_list other obj s
              | Exec sql \<Rightarrow> exec_sql other obj sql s)"
  have sub: "fst (sub obj t) = fst (sub obj' t') \<and> same_but_log (snd (sub obj t)) (snd (sub obj' t'))"
    if "connection obj = connection obj'" for obj obj'
    unfolding sub_def using same_habit_add[OF rt(2) that] same_habits_list[OF rt(2) that]
      same_exec_sql[OF rt(2) that]
    by (cases cmd) simp_all
  have eq: "main other D kw cmd s =
      (let (r, s') = (case commands other D kw s of (Inl e, s1) \<Rightarrow> (Inl e, s1)
                      | (Inr obj, s1) \<Rightarrow> sub obj s1)
       in (r, s'\<lparr>transaction := None, memory := empty_store\<rparr>))" for kw s
    unfolding main_def sub_def by (rule refl)
  show ?thesis
  proof (cases r')
    case (Inl e)
    with rt have "r = Inl e" by (cases r) simp_all
    then show ?thesis unfolding eq x x' using Inl rt(2) by (simp add: same_but_log_def)
  next
    case (Inr obj')
    with rt obtain obj where r: "r = Inr obj" and o: "connection obj = connection obj'"
      by (cases r) simp_all
    obtain q u where y: "sub obj t = (q, u)" by fastforce
    obtain q' u' where y': "sub obj' t' = (q', u')" by fastforce
    from sub[OF o] have "q = q'" "same_but_log u u'" unfolding y y' by simp_all
    then show ?thesis unfolding eq x x' r Inr by (simp add: y y' same_but_log_def)
  qed
qed

text \<open>
  C8. Two runs of the program on the same files, with the same database option and the
  same command, that differ in the flags \<^verbatim>\<open>--verbose\<close> and \<^verbatim>\<open>--debug\<close> only, end alike:
  with the same exception or none, the same files and directories, and the same
  printed output. The flags decide what is logged and nothing else.
\<close>

theorem verbosity_flags_only_log:
  "fst (main other D (group_kwargs db v g) cmd (start ds fs))
     = fst (main other D (group_kwargs db v' g') cmd (start ds fs))
   \<and> files (snd (main other D (group_kwargs db v g) cmd (start ds fs)))
     = files (snd (main other D (group_kwargs db v' g') cmd (start ds fs)))
   \<and> dirs (snd (main other D (group_kwargs db v g) cmd (start ds fs)))
     = dirs (snd (main other D (group_kwargs db v' g') cmd (start ds fs)))
   \<and> stdout (snd (main other D (group_kwargs db v g) cmd (start ds fs)))
     = stdout (snd (main other D (group_kwargs db v' g') cmd (start ds fs)))"
  using same_main[OF same_refl, of other D db v g cmd "start ds fs" v' g']
  by (simp add: same_but_log_def)

theorem verbosity_flags_only_log_witness:
  "stdout (snd (main refuse ''/data'' (group_kwargs (CStr ''habits.db'') True True) Listing
                 (start [] [''habits.db'' \<mapsto> \<lparr>tables = [''habits''], habits = []\<rparr>])))
     = stdout (snd (main refuse ''/data'' (group_kwargs (CStr ''habits.db'') False False) Listing
                 (start [] [''habits.db'' \<mapsto> \<lparr>tables = [''habits''], habits = []\<rparr>])))"
  using verbosity_flags_only_log[of refuse "''/data''" "CStr ''habits.db''" True True Listing "[]"
      "[''habits.db'' \<mapsto> \<lparr>tables = [''habits''], habits = []\<rparr>]" False False]
  by simp

subsection \<open>The raw query\<close>

lemma exec_sql_raises:
  assumes "fst (sqlite other command (current (connection obj) s)) = Inl e"
  shows "fst (exec_sql other obj command s) = Inl e"
proof -
  let ?s1 = "if is_dml command \<and> transaction s = None
             then s\<lparr>transaction := Some (committed (connection obj) s)\<rparr> else s"
  have "current (connection obj) ?s1 = current (connection obj) s"
    by (simp add: current_def committed_def stored_def is_dir_def)
  then show ?thesis
    using assms by (simp add: exec_sql_def cursor_execute_def Let_def case_prod_beta)
qed

text \<open>
  C6, as amended. When the store refuses the statement of \<^verbatim>\<open>exec\<close>, the exception it
  raises, with its message, leaves \<^verbatim>\<open>exec_sql\<close> and \<^verbatim>\<open>main()\<close> as it is: nothing catches
  it, so it ends the process. The failure is never swallowed.
\<close>

theorem exec_sql_propagates:
  assumes "commands other D kwargs s = (Inr obj, s1)"
    and "fst (sqlite other command (current (connection obj) s1)) = Inl e"
  shows "fst (exec_sql other obj command s1) = Inl e
     \<and> fst (main other D kwargs (Exec command) s) = Inl e"
  using exec_sql_raises[OF assms(2)] by (simp add: main_def assms(1) case_prod_beta)

theorem exec_sql_propagates_witness:
  "fst (main refuse ''/data'' (group_kwargs (CStr ''notes.db'') False False) (Exec COUNT_HABITS)
         (start [] [''notes.db'' \<mapsto> \<lparr>tables = [''notes''], habits = []\<rparr>]))
     = Inl (OperationalError ''no such table: habits'')"
proof -
  let ?s = "start [] [''notes.db'' \<mapsto> \<lparr>tables = [''notes''], habits = []\<rparr>]"
  have df: "database_file ''notes.db'' ?s" by code_simp
  have st: "stored ''notes.db'' ?s = \<lparr>tables = [''notes''], habits = []\<rparr>"
    by code_simp
  have "\<exists>obj s'. commands refuse ''/data'' (group_kwargs (CStr ''notes.db'') False False) ?s
            = (Inr obj, s')
     \<and> connection obj = ''notes.db'' \<and> files s' = files ?s \<and> dirs s' = dirs ?s
     \<and> transaction s' = None \<and> stdout s' = stdout ?s"
    by (rule commands_given) (simp_all add: df st)
  then obtain obj s1 where
    c: "commands refuse ''/data'' (group_kwargs (CStr ''notes.db'') False False) ?s = (Inr obj, s1)"
    and o: "connection obj = ''notes.db''" and f: "files s1 = files ?s" "dirs s1 = dirs ?s"
      "transaction s1 = None"
    by blast
  have "stored ''notes.db'' s1 = \<lparr>tables = [''notes''], habits = []\<rparr>"
    using stored_files[OF f(1,2), of "''notes.db''"] st by simp
  moreover have "\<not> temporary ''notes.db''" using df by (simp add: database_file_def)
  ultimately have "fst (sqlite refuse COUNT_HABITS (current (connection obj) s1)) = Inl no_such_table"
    using f(3) by (simp add: o current_idle committed_file sqlite_def statement_queries)
  from exec_sql_propagates[OF c this] show ?thesis by (auto simp: no_such_table_def)
qed

text \<open>
  C6, as stated, fails: \<^verbatim>\<open>exec\<close> of a query on \<^verbatim>\<open>habits\<close>, on a database file without
  that table, is not answered by an error the program reports. \<^verbatim>\<open>main()\<close> does not
  return: the \<^verbatim>\<open>sqlite3.OperationalError\<close> leaves it uncaught, which ends the process with
  a traceback.
\<close>

theorem exec_sql_counterexample:
  "fst (main refuse ''/data'' (group_kwargs (CStr ''notes.db'') False False) (Exec SELECT_HABITS)
         (start [] [''notes.db'' \<mapsto> \<lparr>tables = [''notes''], habits = []\<rparr>]))
     = Inl (OperationalError ''no such table: habits'')"
  by code_simp

subsection \<open>The statement of \<^verbatim>\<open>add\<close>\<close>

lemma stored_file: "database_file path s \<Longrightarrow> stored path s = (case files s path of None \<Rightarrow> empty_store | Some db \<Rightarrow> db)"
  by (simp add: stored_def database_file_def)

lemma database_file_start:
  "database_file path (start ds fs) \<Longrightarrow> database_file path (start ds fs')"
  by (simp add: database_file_def is_dir_def)

lemma habit_add_plain:
  assumes "transaction s = None" "plain t" "plain d"
    "database_file (connection obj) s"
    "has_table ''habits'' (stored (connection obj) s)"
    "Some (Text t) \<notin> set (map title_of (habits (stored (connection obj) s)))"
  shows "\<exists>s'. habit_add other obj (add_kwargs t d r n) s = (Inr (), s')
     \<and> stored (connection obj) s'
         = (stored (connection obj) s)\<lparr>habits := habits (stored (connection obj) s)
              @ [[Text t, Text d, Text (str_bool r), Text (str_bool n)]]\<rparr>
     \<and> transaction s' = None \<and> dirs s' = dirs s \<and> stdout s' = stdout s"
proof -
  let ?con = "connection obj"
  let ?sql = "insert_statement (add_kwargs t d r n)"
  let ?l = "log DEBUG ?sql [] (log DEBUG (''Adding habit: '%s'' @ [sq]) [Kwargs (add_kwargs t d r n)] s)"
  let ?db = "stored ?con s"
  let ?db' = "?db\<lparr>habits := habits ?db @ [[Text t, Text d, Text (str_bool r), Text (str_bool n)]]\<rparr>"
  have f: "\<not> temporary ?con"
    using assms(4) by (simp add: database_file_def)
  have q: "sqlite other ?sql ?db = (Inr [], ?db')"
    using assms(5,6)
    by (simp add: sqlite_def statement_of_add[OF assms(2,3)] insert_habits_def title_of_def)
  have "cursor_execute other ?con ?sql ?l = (Inr [], ?l\<lparr>transaction := Some ?db'\<rparr>)"
    using assms(1) by (simp add: cursor_execute_def is_dml_insert Let_def current_def q
        committed_file[OF f])
  moreover have "database_file ?con (?l\<lparr>transaction := Some ?db'\<rparr>)"
    using assms(4) database_file_dirs[of "?l\<lparr>transaction := Some ?db'\<rparr>" s ?con] by simp
  from stored_save[OF this, of ?db']
  have "stored ?con ((save ?con ?db' (?l\<lparr>transaction := Some ?db'\<rparr>))\<lparr>transaction := None\<rparr>) = ?db'"
    by simp
  ultimately show ?thesis
    by (simp add: habit_add_def Let_def commit_def)
qed

lemma main_add_plain:
  assumes "database_file path (start ds fs)" "fs path = Some db"
    "has_table ''habits'' db" "plain t" "plain d"
    "Some (Text t) \<notin> set (map title_of (habits db))"
  shows "\<exists>s1. main other D (group_kwargs (CStr path) v g) (Add (add_kwargs t d r n)) (start ds fs)
           = (Inr (), s1)
     \<and> files s1 path
         = Some (db\<lparr>habits := habits db @ [[Text t, Text d, Text (str_bool r), Text (str_bool n)]]\<rparr>)
     \<and> dirs s1 = ds"
proof -
  let ?db' = "db\<lparr>habits := habits db @ [[Text t, Text d, Text (str_bool r), Text (str_bool n)]]\<rparr>"
  have st: "stored path (start ds fs) = db"
    using assms(2) by (simp add: stored_file[OF assms(1)])
  have ne: "tables (stored path (start ds fs)) \<noteq> []" using assms(3) unfolding st by auto
  from commands_given[OF _ assms(1) ne, of other D v g]
  obtain obj s' where c: "commands other D (group_kwargs (CStr path) v g) (start ds fs) = (Inr obj, s')"
    and o: "connection obj = path" and s': "files s' = fs" "dirs s' = ds" "transaction s' = None"
    by auto
  have df: "database_file path s'"
    using assms(1) database_file_dirs[of s' "start ds fs" path] s'(2) by simp
  have st': "stored path s' = db" using s'(1) assms(2) by (simp add: stored_file[OF df])
  have "\<exists>s1. habit_add other obj (add_kwargs t d r n) s' = (Inr (), s1)
     \<and> stored (connection obj) s1
         = (stored (connection obj) s')\<lparr>habits := habits (stored (connection obj) s')
              @ [[Text t, Text d, Text (str_bool r), Text (str_bool n)]]\<rparr>
     \<and> transaction s1 = None \<and> dirs s1 = dirs s' \<and> stdout s1 = stdout s'"
    by (rule habit_add_plain) (use assms df in \<open>simp_all add: s' o st'\<close>)
  then obtain s1 where a: "habit_add other obj (add_kwargs t d r n) s' = (Inr (), s1)"
    and s1: "stored path s1 = ?db'" "dirs s1 = dirs s'"
    unfolding o st' by blast
  have df1: "database_file path s1"
    using df database_file_dirs[of s1 s' path] s1(2) by simp
  have "files s1 path \<noteq> None"
  proof
    assume "files s1 path = None"
    then have "stored path s1 = empty_store" by (simp add: stored_file[OF df1])
    then have "habits (stored path s1) = []" by (simp add: empty_store_def)
    then show False unfolding s1(1) by simp
  qed
  with s1(1) have "files s1 path = Some ?db'"
    by (auto simp: stored_file[OF df1])
  then show ?thesis using s1(2) s'(2) by (simp add: main_def c a)
qed

lemma main_exec_select:
  assumes "database_file path (start ds fs)" "fs path = Some db"
    "has_table ''habits'' db" "habits db \<noteq> []"
  shows "\<exists>s2. main other D (group_kwargs (CStr path) v g) (Exec SELECT_HABITS) (start ds fs)
           = (Inr (), s2) \<and> stdout s2 = [Rows (habits db)] \<and> files s2 = fs"
proof -
  have st: "stored path (start ds fs) = db"
    using assms(2) by (simp add: stored_file[OF assms(1)])
  have ne: "tables (stored path (start ds fs)) \<noteq> []" using assms(3) unfolding st by auto
  from commands_given[OF _ assms(1) ne, of other D v g]
  obtain obj s' where c: "commands other D (group_kwargs (CStr path) v g) (start ds fs) = (Inr obj, s')"
    and o: "connection obj = path" and s': "files s' = fs" "transaction s' = None" "stdout s' = []"
      "dirs s' = ds"
    by auto
  have df: "database_file path s'"
    using assms(1) database_file_dirs[of s' "start ds fs" path] s'(4) by simp
  have nt: "\<not> temporary path" using df by (simp add: database_file_def)
  have st': "committed path s' = db"
    using s'(1) assms(2) by (simp add: stored_file[OF df] committed_file[OF nt])
  have "cursor_execute other path SELECT_HABITS s' = (Inr (habits (committed path s')), s')"
    using assms(3) s'(2) unfolding st'[symmetric]
    by (simp add: cursor_execute_def is_dml_queries sqlite_def statement_queries current_idle)
  then have "cursor_execute other path SELECT_HABITS s' = (Inr (habits db), s')"
    unfolding st' .
  then show ?thesis
    using assms(4) s' by (simp add: main_def c exec_sql_def o Let_def)
qed

subsection \<open>Adding habits\<close>

text \<open>
  What holds when neither the title nor the description holds a double quote or NUL
  and the options come in the order of their declaration, on a database file with the table
  \<^verbatim>\<open>habits\<close>: a title that is in the table is refused and nothing changes; a new one is
  stored, the two booleans as the texts \<^verbatim>\<open>True\<close> and \<^verbatim>\<open>False\<close>, and \<^verbatim>\<open>list\<close> returns it with
  its four fields when the rows already there are well formed; the number of rows
  grows by one with every \<^verbatim>\<open>add\<close> that succeeds.
\<close>

lemma add_plain_stores_text:
  assumes "database_file path (start ds fs)" and "fs path = Some db"
    and "has_table ''habits'' db" and "plain t" and "plain d"
    and "Some (Text t) \<notin> set (map title_of (habits db))"
  shows "insert_statement (add_kwargs t d r n)
       = ''INSERT INTO habits (title, description, require, negative) VALUES (''
           @ [dq] @ t @ [dq] @ '', '' @ [dq] @ d @ [dq] @ '', ''
           @ [dq] @ (if r then ''True'' else ''False'') @ [dq] @ '', ''
           @ [dq] @ (if n then ''True'' else ''False'') @ [dq] @ '');''
     \<and> (\<exists>s1 s2.
          main other D (group_kwargs (CStr path) v g) (Add (add_kwargs t d r n)) (start ds fs)
            = (Inr (), s1)
          \<and> habits (stored path s1)
             = habits db @ [[Text t, Text d, Text (if r then ''True'' else ''False''),
                             Text (if n then ''True'' else ''False'')]]
          \<and> main other D (group_kwargs (CStr path) v' g') (Exec SELECT_HABITS)
               (start (dirs s1) (files s1)) = (Inr (), s2)
          \<and> stdout s2
             = [Rows (habits db @ [[Text t, Text d, Text (if r then ''True'' else ''False''),
                                    Text (if n then ''True'' else ''False'')]])])"
proof -
  let ?db' = "db\<lparr>habits := habits db @ [[Text t, Text d, Text (str_bool r), Text (str_bool n)]]\<rparr>"
  from main_add_plain[of path ds fs db t d other D v g r n, OF assms] obtain s1 where
    a: "main other D (group_kwargs (CStr path) v g) (Add (add_kwargs t d r n)) (start ds fs) = (Inr (), s1)"
    and f: "files s1 path = Some ?db'" and d: "dirs s1 = ds"
    by blast
  have df: "database_file path (start (dirs s1) (files s1))"
    unfolding d by (rule database_file_start[OF assms(1)])
  have "\<exists>s2. main other D (group_kwargs (CStr path) v' g') (Exec SELECT_HABITS)
               (start (dirs s1) (files s1)) = (Inr (), s2)
     \<and> stdout s2 = [Rows (habits ?db')] \<and> files s2 = files s1"
    by (rule main_exec_select[of path "dirs s1" "files s1" ?db', OF df f])
       (use assms in \<open>simp_all\<close>)
  then obtain s2 where
    e: "main other D (group_kwargs (CStr path) v' g') (Exec SELECT_HABITS)
               (start (dirs s1) (files s1)) = (Inr (), s2)" "stdout s2 = [Rows (habits ?db')]"
    by blast
  have "database_file path s1"
    using assms(1) database_file_dirs[of s1 "start ds fs" path] d by simp
  then have "habits (stored path s1) = habits ?db'" using f by (simp add: stored_file)
  with a e have "\<exists>s1 s2.
          main other D (group_kwargs (CStr path) v g) (Add (add_kwargs t d r n)) (start ds fs)
            = (Inr (), s1)
          \<and> habits (stored path s1) = habits ?db'
          \<and> main other D (group_kwargs (CStr path) v' g') (Exec SELECT_HABITS)
               (start (dirs s1) (files s1)) = (Inr (), s2)
          \<and> stdout s2 = [Rows (habits ?db')]"
    by blast
  moreover have "insert_statement (add_kwargs t d r n)
       = ''INSERT INTO habits (title, description, require, negative) VALUES (''
           @ [dq] @ t @ [dq] @ '', '' @ [dq] @ d @ [dq] @ '', ''
           @ [dq] @ str_bool r @ [dq] @ '', '' @ [dq] @ str_bool n @ [dq] @ '');''"
    by (simp add: insert_statement_add INSERT_INTO_def)
  ultimately show ?thesis by (simp add: str_bool_def)
qed

text \<open>
  In another order of the options the statement names the columns in that order, and
  the same row is stored.
\<close>

lemma add_in_another_order:
  "(let s0 = start [] [''habits.db'' \<mapsto> \<lparr>tables = [''habits''], habits = []\<rparr>];
        opts = group_kwargs (CStr ''habits.db'') False False;
        kw = [(''negative'', CBool False), (''title'', CStr ''run''),
              (''require'', CBool True), (''description'', CStr ''daily'')];
        (r1, s1) = main other D opts (Add kw) s0
    in insert_statement kw
         = ''INSERT INTO habits (negative, title, require, description) VALUES (''
             @ [dq] @ ''False'' @ [dq] @ '', '' @ [dq] @ ''run'' @ [dq] @ '', ''
             @ [dq] @ ''True'' @ [dq] @ '', '' @ [dq] @ ''daily'' @ [dq] @ '');''
       \<and> r1 = Inr ()
       \<and> habits (stored ''habits.db'' s1)
           = [[Text ''run'', Text ''daily'', Text ''True'', Text ''False'']])"
  by code_simp

lemma habit_add_duplicate:
  assumes "transaction s = None" "plain t" "plain d"
    "database_file (connection obj) s"
    "has_table ''habits'' (stored (connection obj) s)"
    "Some (Text t) \<in> set (map title_of (habits (stored (connection obj) s)))"
  shows "\<exists>s'. habit_add other obj (add_kwargs t d r n) s
           = (Inl (IntegrityError ''UNIQUE constraint failed: habits.title''), s')
     \<and> files s' = files s \<and> dirs s' = dirs s \<and> stdout s' = stdout s"
proof -
  let ?con = "connection obj"
  let ?sql = "insert_statement (add_kwargs t d r n)"
  let ?l = "log DEBUG ?sql [] (log DEBUG (''Adding habit: '%s'' @ [sq]) [Kwargs (add_kwargs t d r n)] s)"
  have f: "\<not> temporary ?con" using assms(4) by (simp add: database_file_def)
  have q: "sqlite other ?sql (stored ?con s)
             = (Inl (IntegrityError ''UNIQUE constraint failed: habits.title''), stored ?con s)"
    using assms(5,6)
    by (simp add: sqlite_def statement_of_add[OF assms(2,3)] insert_habits_def title_of_def)
  have "cursor_execute other ?con ?sql ?l
          = (Inl (IntegrityError ''UNIQUE constraint failed: habits.title''),
             ?l\<lparr>transaction := Some (stored ?con s)\<rparr>)"
    using assms(1) by (simp add: cursor_execute_def is_dml_insert Let_def current_def q
        committed_file[OF f])
  then show ?thesis by (simp add: habit_add_def Let_def)
qed

lemma main_add_duplicate:
  assumes "database_file path (start ds fs)" "fs path = Some db"
    "has_table ''habits'' db" "plain t" "plain d"
    "Some (Text t) \<in> set (map title_of (habits db))"
  shows "\<exists>s1. main other D (group_kwargs (CStr path) v g) (Add (add_kwargs t d r n)) (start ds fs)
           = (Inl (IntegrityError ''UNIQUE constraint failed: habits.title''), s1)
     \<and> files s1 = fs \<and> dirs s1 = ds"
proof -
  have st: "stored path (start ds fs) = db"
    using assms(2) by (simp add: stored_file[OF assms(1)])
  have ne: "tables (stored path (start ds fs)) \<noteq> []" using assms(3) unfolding st by auto
  from commands_given[OF _ assms(1) ne, of other D v g]
  obtain obj s' where c: "commands other D (group_kwargs (CStr path) v g) (start ds fs) = (Inr obj, s')"
    and o: "connection obj = path" and s': "files s' = fs" "dirs s' = ds" "transaction s' = None"
    by auto
  have df: "database_file path s'"
    using assms(1) database_file_dirs[of s' "start ds fs" path] s'(2) by simp
  have st': "stored path s' = db" using s'(1) assms(2) by (simp add: stored_file[OF df])
  have "\<exists>s1. habit_add other obj (add_kwargs t d r n) s'
           = (Inl (IntegrityError ''UNIQUE constraint failed: habits.title''), s1)
     \<and> files s1 = files s' \<and> dirs s1 = dirs s' \<and> stdout s1 = stdout s'"
    by (rule habit_add_duplicate) (use assms df in \<open>simp_all add: s' o st'\<close>)
  then show ?thesis using s' by (auto simp: main_def c)
qed

lemma comprehension_all:
  assumes "list_all (\<lambda>x. \<not> isl (f x)) xs"
  shows "comprehension f xs = Inr (map (\<lambda>x. projr (f x)) xs)"
  using assms
proof (induction xs)
  case Nil
  then show ?case by simp
next
  case (Cons x xs)
  then obtain y where "f x = Inr y" by (cases "f x") simp_all
  with Cons show ?case by simp
qed

lemma from_values_stored:
  "Habit_from_values (map py_of_sql [Text t, Text d, Text (str_bool r), Text (str_bool n)])
     = Inr \<lparr>title = t, description = d, required = r, negative = n\<rparr>"
proof -
  have "bool_validator (PyStr (str_bool b)) = Inr b" for b
    by (cases b) (simp_all add: bool_validator_def str_bool_def lower_def lower_char_def
        BOOL_TRUE_def BOOL_FALSE_def)
  then show ?thesis
    by (simp add: from_values_ok str_validator_def)
qed

lemma main_list:
  assumes "database_file path (start ds fs)" "fs path = Some db"
    "has_table ''habits'' db"
    "list_all (\<lambda>row. \<not> isl (Habit_from_values (map py_of_sql row))) (habits db)"
  shows "\<exists>s2. main other D (group_kwargs (CStr path) v g) Listing (start ds fs) = (Inr (), s2)
     \<and> stdout s2 = [Habits (map (\<lambda>row. projr (Habit_from_values (map py_of_sql row))) (habits db))]"
proof -
  have st: "stored path (start ds fs) = db"
    using assms(2) by (simp add: stored_file[OF assms(1)])
  have ne: "tables (stored path (start ds fs)) \<noteq> []" using assms(3) unfolding st by auto
  from commands_given[OF _ assms(1) ne, of other D v g]
  obtain obj s' where c: "commands other D (group_kwargs (CStr path) v g) (start ds fs) = (Inr obj, s')"
    and o: "connection obj = path" and s': "files s' = fs" "transaction s' = None" "stdout s' = []"
      "dirs s' = ds"
    by auto
  have df: "database_file path s'"
    using assms(1) database_file_dirs[of s' "start ds fs" path] s'(4) by simp
  have nt: "\<not> temporary path" using df by (simp add: database_file_def)
  have st': "committed path s' = db"
    using s'(1) assms(2) by (simp add: stored_file[OF df] committed_file[OF nt])
  have "cursor_execute other path SELECT_HABITS s' = (Inr (habits (committed path s')), s')"
    using assms(3) s'(2) unfolding st'[symmetric]
    by (simp add: cursor_execute_def is_dml_queries sqlite_def statement_queries current_idle)
  then have "cursor_execute other path SELECT_HABITS s' = (Inr (habits db), s')"
    unfolding st' .
  then show ?thesis
    using s' by (simp add: main_def c habits_list_def o Let_def comprehension_all[OF assms(4)])
qed

lemma add_then_list_plain:
  assumes "database_file path (start ds fs)" "fs path = Some db"
    "has_table ''habits'' db" "plain t" "plain d"
    "Some (Text t) \<notin> set (map title_of (habits db))"
    "list_all (\<lambda>row. \<not> isl (Habit_from_values (map py_of_sql row))) (habits db)"
  shows "\<exists>s1 s2 hs.
     main other D (group_kwargs (CStr path) v g) (Add (add_kwargs t d r n)) (start ds fs) = (Inr (), s1)
     \<and> main other D (group_kwargs (CStr path) v' g') Listing (start (dirs s1) (files s1)) = (Inr (), s2)
     \<and> stdout s2 = [Habits hs]
     \<and> \<lparr>title = t, description = d, required = r, negative = n\<rparr> \<in> set hs"
proof -
  let ?row = "[Text t, Text d, Text (str_bool r), Text (str_bool n)]"
  let ?db' = "db\<lparr>habits := habits db @ [?row]\<rparr>"
  let ?f = "\<lambda>row. Habit_from_values (map py_of_sql row)"
  from main_add_plain[of path ds fs db t d other D v g r n, OF assms(1-6)] obtain s1 where
    a: "main other D (group_kwargs (CStr path) v g) (Add (add_kwargs t d r n)) (start ds fs) = (Inr (), s1)"
    and f: "files s1 path = Some ?db'" and d: "dirs s1 = ds"
    by blast
  have df: "database_file path (start (dirs s1) (files s1))"
    unfolding d by (rule database_file_start[OF assms(1)])
  have ok: "list_all (\<lambda>row. \<not> isl (?f row)) (habits ?db')"
    using assms(7) from_values_stored[of t d r n] by simp
  have "\<exists>s2. main other D (group_kwargs (CStr path) v' g') Listing (start (dirs s1) (files s1)) = (Inr (), s2)
     \<and> stdout s2 = [Habits (map (\<lambda>row. projr (?f row)) (habits ?db'))]"
    by (rule main_list[of path "dirs s1" "files s1" ?db', OF df f _ ok])
       (use assms in \<open>simp_all\<close>)
  then obtain s2 where
    l: "main other D (group_kwargs (CStr path) v' g') Listing (start (dirs s1) (files s1)) = (Inr (), s2)"
      "stdout s2 = [Habits (map (\<lambda>row. projr (?f row)) (habits ?db'))]"
    by blast
  have "\<lparr>title = t, description = d, required = r, negative = n\<rparr>
          \<in> set (map (\<lambda>row. projr (?f row)) (habits ?db'))"
    using from_values_stored[of t d r n] by simp
  with a l show ?thesis by blast
qed

lemma add_runs_plain:
  assumes "database_file path (start ds fs0)" "has_table ''habits'' db"
    "list_all (\<lambda>(t, d, r, n). plain t \<and> plain d) adds"
    "fs path = Some db"
    "add_runs other D (group_kwargs (CStr path) v g) adds ds fs = Some (ds', fs')"
  shows "ds' = ds \<and> (\<exists>db'. fs' path = Some db' \<and> tables db' = tables db
           \<and> length (habits db') = length (habits db) + length adds)"
  using assms(2-5)
proof (induction adds arbitrary: fs db)
  case Nil
  then show ?case by simp
next
  case (Cons a adds)
  obtain t d r n where a: "a = (t, d, r, n)" by (cases a)
  from Cons.prems(2) have pl: "plain t" "plain d"
    and rest: "list_all (\<lambda>(t, d, r, n). plain t \<and> plain d) adds"
    by (simp_all add: a)
  note tab = Cons.prems(1)
  note df = database_file_start[OF assms(1), of fs]
  show ?case
  proof (cases "Some (Text t) \<in> set (map title_of (habits db))")
    case True
    from main_add_duplicate[of path ds fs db t d other D v g r n,
        OF df Cons.prems(3) tab pl True]
    show ?thesis using Cons.prems(4) by (auto simp: a)
  next
    case False
    let ?db' = "db\<lparr>habits := habits db @ [[Text t, Text d, Text (str_bool r), Text (str_bool n)]]\<rparr>"
    from main_add_plain[of path ds fs db t d other D v g r n,
        OF df Cons.prems(3) tab pl False]
    obtain s1 where m: "main other D (group_kwargs (CStr path) v g) (Add (add_kwargs t d r n)) (start ds fs)
           = (Inr (), s1)" and f: "files s1 path = Some ?db'" and d: "dirs s1 = ds"
      by auto
    from Cons.prems(4) have r: "add_runs other D (group_kwargs (CStr path) v g) adds ds (files s1) = Some (ds', fs')"
      by (simp add: a m d)
    have "has_table ''habits'' ?db'" using tab by simp
    from Cons.IH[OF this rest f r] show ?thesis by auto
  qed
qed

lemma main_count:
  assumes "database_file path (start ds fs)" "fs path = Some db"
    "has_table ''habits'' db"
  shows "\<exists>s2. main other D (group_kwargs (CStr path) v g) (Exec COUNT_HABITS) (start ds fs)
           = (Inr (), s2) \<and> stdout s2 = [Rows [[Integer (int (length (habits db)))]]]"
proof -
  have st: "stored path (start ds fs) = db"
    using assms(2) by (simp add: stored_file[OF assms(1)])
  have ne: "tables (stored path (start ds fs)) \<noteq> []" using assms(3) unfolding st by auto
  from commands_given[OF _ assms(1) ne, of other D v g]
  obtain obj s' where c: "commands other D (group_kwargs (CStr path) v g) (start ds fs) = (Inr obj, s')"
    and o: "connection obj = path" and s': "files s' = fs" "transaction s' = None" "stdout s' = []"
      "dirs s' = ds"
    by auto
  have df: "database_file path s'"
    using assms(1) database_file_dirs[of s' "start ds fs" path] s'(4) by simp
  have nt: "\<not> temporary path" using df by (simp add: database_file_def)
  have st': "committed path s' = db"
    using s'(1) assms(2) by (simp add: stored_file[OF df] committed_file[OF nt])
  have "cursor_execute other path COUNT_HABITS s'
          = (Inr [[Integer (int (length (habits (committed path s'))))]], s')"
    using assms(3) s'(2) unfolding st'[symmetric]
    by (simp add: cursor_execute_def is_dml_queries sqlite_def statement_queries current_idle)
  then have "cursor_execute other path COUNT_HABITS s'
          = (Inr [[Integer (int (length (habits db)))]], s')"
    unfolding st' .
  then show ?thesis
    using s' by (simp add: main_def c exec_sql_def o Let_def)
qed

lemma count_after_plain_adds:
  assumes "database_file path (start ds Map.empty)"
    "list_all (\<lambda>(t, d, r, n). plain t \<and> plain d) adds"
    "add_runs other D (group_kwargs (CStr path) v g) adds ds
       [path \<mapsto> \<lparr>tables = [''habits''], habits = []\<rparr>] = Some (ds', fs')"
  shows "\<exists>s2. main other D (group_kwargs (CStr path) v' g') (Exec COUNT_HABITS) (start ds' fs')
           = (Inr (), s2) \<and> stdout s2 = [Rows [[Integer (int (length adds))]]]"
proof -
  let ?db = "\<lparr>tables = [''habits''], habits = []\<rparr>"
  have "ds' = ds \<and> (\<exists>db'. fs' path = Some db' \<and> tables db' = tables ?db
           \<and> length (habits db') = length (habits ?db) + length adds)"
    by (rule add_runs_plain[OF assms(1) _ assms(2) _ assms(3)]) simp_all
  then obtain db' where d: "ds' = ds" "fs' path = Some db'" "tables db' = [''habits'']"
    "length (habits db') = length adds"
    by auto
  have "has_table ''habits'' db'"
    using d(3) by (simp add: has_table_def upper_def upper_char_def)
  with main_count[of path ds' fs' db' other D v' g', OF _ d(2)]
    database_file_start[OF assms(1), of fs'] d
  show ?thesis by simp
qed

text \<open>
  C1 (the code fails the claim). The title \<^verbatim>\<open>a""b\<close> is not empty and not in the store.
  \<^verbatim>\<open>add\<close> puts it between double quotes without escaping it, SQLite reads the two
  double quotes inside as one, and \<^verbatim>\<open>list\<close> returns a habit whose title is \<^verbatim>\<open>a"b\<close>: no
  habit with the inserted title is among the results.
\<close>

theorem add_then_list_changes_title:
  "(let s0 = start [] [''habits.db'' \<mapsto> \<lparr>tables = [''habits''], habits = []\<rparr>];
        opts = group_kwargs (CStr ''habits.db'') False False;
        (r1, s1) = main other D opts (Add (add_kwargs (''a'' @ [dq, dq] @ ''b'') ''d'' True False)) s0;
        (r2, s2) = main other D opts Listing (start (dirs s1) (files s1))
    in r1 = Inr () \<and> r2 = Inr ()
       \<and> stdout s2 = [Habits [\<lparr>title = ''a'' @ [dq] @ ''b'', description = ''d'',
                                 required = True, negative = False\<rparr>]])"
  by code_simp

text \<open>
  C2 (the code fails the claim). After \<^verbatim>\<open>add\<close> with the title \<^verbatim>\<open>a""""b\<close> the store holds a
  habit whose title is \<^verbatim>\<open>a""b\<close>. \<^verbatim>\<open>add\<close> with that same title \<^verbatim>\<open>a""b\<close> raises nothing and
  adds a row with the title \<^verbatim>\<open>a"b\<close>, for the same reason as in C1.
\<close>

theorem add_same_title_inserts:
  "(let s0 = start [] [''habits.db'' \<mapsto> \<lparr>tables = [''habits''], habits = []\<rparr>];
        opts = group_kwargs (CStr ''habits.db'') False False;
        (r1, s1) = main other D opts
                     (Add (add_kwargs (''a'' @ [dq, dq, dq, dq] @ ''b'') ''d'' True False)) s0;
        held = [Text (''a'' @ [dq, dq] @ ''b''), Text ''d'', Text ''True'', Text ''False''];
        (r2, s2) = main other D opts
                     (Add (add_kwargs (''a'' @ [dq, dq] @ ''b'') ''e'' False False))
                     (start (dirs s1) (files s1))
    in r1 = Inr () \<and> habits (stored ''habits.db'' s1) = [held]
       \<and> r2 = Inr ()
       \<and> habits (stored ''habits.db'' s2)
           = [held, [Text (''a'' @ [dq] @ ''b''), Text ''e'', Text ''False'', Text ''False'']])"
  by code_simp

text \<open>
  C7 (the code fails the claim). On a store with an empty table \<^verbatim>\<open>habits\<close>, one successful
  \<^verbatim>\<open>add\<close> whose title is \<^verbatim>\<open>a", "b", "True", "False"), ("c\<close> inserts two rows, since the
  title closes the first row of the \<^verbatim>\<open>VALUES\<close> list and opens a second one; the raw query
  \<^verbatim>\<open>SELECT COUNT(*) FROM habits\<close> then returns 2 after 1 operation.
\<close>

theorem one_add_counts_two:
  "(let s0 = start [] [''habits.db'' \<mapsto> \<lparr>tables = [''habits''], habits = []\<rparr>];
        opts = group_kwargs (CStr ''habits.db'') False False;
        t = ''a'' @ [dq] @ '', '' @ [dq] @ ''b'' @ [dq] @ '', '' @ [dq] @ ''True'' @ [dq] @ '', ''
            @ [dq] @ ''False'' @ [dq] @ ''), ('' @ [dq] @ ''c'';
        (r1, s1) = main other D opts (Add (add_kwargs t ''d'' False False)) s0;
        (r2, s2) = main other D opts (Exec COUNT_HABITS) (start (dirs s1) (files s1))
    in r1 = Inr () \<and> r2 = Inr () \<and> stdout s2 = [Rows [[Integer 2]]])"
  by code_simp

text \<open>
  C10 (the code fails the claim). \<^verbatim>\<open>add\<close> with \<^verbatim>\<open>--require\<close> true, \<^verbatim>\<open>--negative\<close> false and
  the description \<^verbatim>\<open>d", 0, 1); --\<close> succeeds. The description closes its own literal and
  the row, and turns the rest of the statement, which holds the two booleans between
  double quotes, into a comment: the statement that SQLite reads is
  \<^verbatim>\<open>INSERT INTO habits (title, description, require, negative) VALUES ("run", "d", 0, 1);\<close>.
  The row is stored with the integers 0 and 1 in \<^verbatim>\<open>require\<close> and \<^verbatim>\<open>negative\<close>, and \<^verbatim>\<open>exec\<close>
  of \<^verbatim>\<open>SELECT * FROM habits;\<close> prints them so: the inputs are not persisted as the texts
  \<^verbatim>\<open>True\<close> and \<^verbatim>\<open>False\<close>. The reason is the one of C1: the values are put between double
  quotes without being escaped.
\<close>

theorem add_stores_integers:
  "(let s0 = start [] [''habits.db'' \<mapsto> \<lparr>tables = [''habits''], habits = []\<rparr>];
        opts = group_kwargs (CStr ''habits.db'') False False;
        d = ''d'' @ [dq] @ '', 0, 1); --'';
        (r1, s1) = main other D opts (Add (add_kwargs ''run'' d True False)) s0;
        (r2, s2) = main other D opts (Exec SELECT_HABITS) (start (dirs s1) (files s1))
    in insert_statement (add_kwargs ''run'' d True False)
         = ''INSERT INTO habits (title, description, require, negative) VALUES (''
             @ [dq] @ ''run'' @ [dq] @ '', '' @ [dq] @ ''d'' @ [dq] @ '', 0, 1); --'' @ [dq]
             @ '', '' @ [dq] @ ''True'' @ [dq] @ '', '' @ [dq] @ ''False'' @ [dq] @ '');''
       \<and> r1 = Inr ()
       \<and> habits (stored ''habits.db'' s1) = [[Text ''run'', Text ''d'', Integer 0, Integer 1]]
       \<and> r2 = Inr ()
       \<and> stdout s2 = [Rows [[Text ''run'', Text ''d'', Integer 0, Integer 1]]])"
  by code_simp

end
